theory Spec2Isabelle
  imports Main "HOL-Library.Word"
begin

unbundle bit_operations_syntax

text \<open>
  A shallow embedding of the PE rewriter of chum/source/main.cpp: the disassembly
  (\<open>parse2\<close>, \<open>rva_to_file_offset\<close>, \<open>rva_to_code_block\<close>) and the emission
  (\<open>write\<close>, \<open>write_data_blocks\<close>, \<open>write_code_blocks\<close>, \<open>code_region_writer\<close>,
  \<open>calculate_adjusted_target_delta\<close>, \<open>reencode_relative_branch\<close>). Functions that
  mutate the parser return the new state; a \<open>return false\<close> is a named error.
\<close>

section \<open>Data model of chum/source/main.cpp\<close>

type_synonym byte = "8 word"
type_synonym u32 = "32 word"

text \<open>
  A pointer into the output memory is an integer address; pointer differences
  (\<open>ptrdiff_t\<close>) and the 64-bit deltas of the emitter are integers as well.
  Fields of type \<open>std::uint32_t\<close> are 32-bit words, so that \<open>+\<close> and \<open>-\<close> wrap
  as they do in the source.
\<close>

type_synonym addr = int

text \<open>
  \<open>IMAGE_SECTION_HEADER\<close>: the four fields that main.cpp reads, and the
  \<open>IMAGE_SCN_MEM_EXECUTE\<close> bit of \<open>Characteristics\<close>.
\<close>

record section_header =
  VirtualAddress :: u32
  VirtualSize :: u32
  PointerToRawData :: u32
  SizeOfRawData :: u32
  MemExecute :: bool

section \<open>rva_to_file_offset\<close>

text \<open>
  The loop over \<open>sections_[0 .. NumberOfSections)\<close> returns at the first section
  whose test succeeds and falls through to \<open>return 0\<close>. The sum
  \<open>VirtualAddress + VirtualSize\<close> is a 32-bit sum.
\<close>

fun rva_to_file_offset :: "section_header list \<Rightarrow> u32 \<Rightarrow> u32" where
  "rva_to_file_offset [] rva = 0"
| "rva_to_file_offset (s # ss) rva =
     (if rva \<ge> VirtualAddress s \<and> rva < VirtualAddress s + VirtualSize s
      then (rva - VirtualAddress s) + PointerToRawData s
      else rva_to_file_offset ss rva)"

text \<open>
  The virtual range of a section as the claim words it: the half-open interval
  \<open>[VirtualAddress, VirtualAddress + VirtualSize)\<close> of natural numbers.
\<close>

definition in_virtual_range :: "section_header \<Rightarrow> u32 \<Rightarrow> bool" where
  "in_virtual_range s rva \<longleftrightarrow>
     unat (VirtualAddress s) \<le> unat rva \<and>
     unat rva < unat (VirtualAddress s) + unat (VirtualSize s)"

section \<open>The Zydis interface\<close>

text \<open>
  Zydis is an external library. Its decoder, its conversion of a decoded
  instruction into an encoder request and its encoder are parameters of the
  model; the records below hold the fields that main.cpp reads or writes.
\<close>

datatype category =
  CATEGORY_CALL | CATEGORY_COND_BR | CATEGORY_UNCOND_BR
  | CATEGORY_RET | CATEGORY_INTERRUPT | CATEGORY_OTHER

datatype branch_type =
  BRANCH_TYPE_NONE | BRANCH_TYPE_SHORT | BRANCH_TYPE_NEAR | BRANCH_TYPE_FAR

text \<open>
  A visible operand: a memory operand with its displacement, an immediate with
  its \<open>is_relative\<close> flag and signed value, or anything else (a register).
\<close>

datatype operand =
  OPERAND_MEMORY int | OPERAND_IMMEDIATE bool int | OPERAND_OTHER

record decoded_instruction =
  insn_length :: nat
  insn_category :: category
  insn_branch_type :: branch_type
  attrib_is_relative :: bool
  attrib_has_modrm :: bool
  insn_opcode :: byte
  disp_offset :: nat
  insn_operands :: "operand list"

record encoder_request =
  req_instruction :: decoded_instruction
  req_prefixes :: "64 word"
  req_branch_type :: branch_type
  req_operands :: "operand list"

record zydis =
  DecoderDecode :: "byte list \<Rightarrow> decoded_instruction option"
  ToEncoderRequest :: "decoded_instruction \<Rightarrow> encoder_request option"
  EncoderEncode :: "encoder_request \<Rightarrow> byte list option"

definition ZYDIS_MAX_INSTRUCTION_LENGTH :: nat where
  "ZYDIS_MAX_INSTRUCTION_LENGTH = 15"

text \<open>
  \<open>ZydisDecoderDecodeInstruction\<close> and \<open>ZydisDecoderDecodeFull\<close> on a buffer of the
  given bytes. The library's contract is part of the wrapper: a decoded instruction
  is at least one byte long, at most \<open>ZYDIS_MAX_INSTRUCTION_LENGTH\<close> bytes long and
  no longer than the buffer it was decoded from; on an empty buffer decoding fails.
\<close>

definition ZydisDecoderDecode :: "zydis \<Rightarrow> byte list \<Rightarrow> decoded_instruction option" where
  "ZydisDecoderDecode z buffer =
     (case DecoderDecode z buffer of
        None \<Rightarrow> None
      | Some d \<Rightarrow>
          if 1 \<le> insn_length d \<and> insn_length d \<le> ZYDIS_MAX_INSTRUCTION_LENGTH
             \<and> insn_length d \<le> length buffer
          then Some d else None)"

text \<open>
  \<open>ZydisEncoderEncodeInstruction\<close> with a buffer of \<open>capacity\<close> bytes: it fails when
  the encoding does not fit.
\<close>

definition ZydisEncoderEncodeInstruction ::
    "zydis \<Rightarrow> encoder_request \<Rightarrow> nat \<Rightarrow> byte list option" where
  "ZydisEncoderEncodeInstruction z req capacity =
     (case EncoderEncode z req of
        None \<Rightarrow> None
      | Some bs \<Rightarrow> if length bs \<le> capacity then Some bs else None)"

text \<open>\<open>__popcnt64\<close>: the number of set bits of a 64-bit value.\<close>

definition popcnt64 :: "64 word \<Rightarrow> nat" where
  "popcnt64 w = length (filter (bit w) [0..<64])"

section \<open>Errors\<close>

text \<open>
  The source reports a failure by printing a message and returning \<open>false\<close>; the
  model names each such exit. A failed \<open>assert\<close> is an exit of its own, and so is
  an access that the source would make outside the file buffer, outside a local
  array or through a null pointer.
\<close>

datatype error =
  DecodeFailed
  | AssertionFailed
  | NoDataRegions
  | OutOfSpaceData
  | NoCodeRegions
  | OutOfSpaceCode
  | EncoderRequestFailed
  | TargetDeltaFailed
  | MemoryDeltaTooBig
  | BranchNotEncodable
  | UnhandledRelative
  | InvalidAccess

section \<open>Blocks and regions\<close>

text \<open>
  \<open>expected_size\<close> and \<open>final_size\<close> are the two members of one anonymous union:
  they are one field, read under either name.
\<close>

record code_block =
  cb_final_virtual_address :: addr
  cb_virtual_offset :: u32
  cb_file_offset :: u32
  cb_file_size :: u32
  cb_final_size :: u32
  cb_is_relative :: bool

abbreviation cb_expected_size :: "code_block \<Rightarrow> u32" where
  "cb_expected_size \<equiv> cb_final_size"

record data_block =
  db_final_virtual_address :: addr
  db_virtual_offset :: u32
  db_file_offset :: u32
  db_file_size :: u32
  db_virtual_size :: u32

record memory_region =
  virtual_address :: addr
  region_size :: u32

type_synonym memory = "addr \<Rightarrow> byte"

definition memcpy :: "memory \<Rightarrow> addr \<Rightarrow> byte list \<Rightarrow> memory" where
  "memcpy mem dst bytes =
     (\<lambda>a. if dst \<le> a \<and> a < dst + int (length bytes) then bytes ! nat (a - dst) else mem a)"

definition memset :: "memory \<Rightarrow> addr \<Rightarrow> byte \<Rightarrow> nat \<Rightarrow> memory" where
  "memset mem dst v n = memcpy mem dst (replicate n v)"

text \<open>\<open>&file_buffer_[off]\<close> read for \<open>n\<close> bytes; \<open>None\<close> when the read leaves the buffer.\<close>

definition file_bytes :: "byte list \<Rightarrow> nat \<Rightarrow> nat \<Rightarrow> byte list option" where
  "file_bytes file_buffer off n =
     (if off + n \<le> length file_buffer then Some (take n (drop off file_buffer)) else None)"

section \<open>code_region_writer\<close>

record code_region_writer =
  regions :: "memory_region list"
  current_region_idx :: nat
  current_region :: memory_region
  current_offset :: u32

text \<open>The constructor; the caller has checked that the vector is not empty.\<close>

definition new_writer :: "memory_region list \<Rightarrow> code_region_writer" where
  "new_writer rs = \<lparr>regions = rs, current_region_idx = 0, current_region = hd rs,
     current_offset = 0\<rparr>"

definition current_write_address :: "code_region_writer \<Rightarrow> addr" where
  "current_write_address w = virtual_address (current_region w) + uint (current_offset w)"

text \<open>
  \<open>write(buffer, size, cb)\<close>. The size is a 32-bit value and the test
  \<open>current_offset_ + size > current_region_->size\<close> is a 32-bit comparison.
\<close>

definition write_cb ::
    "code_region_writer \<Rightarrow> memory \<Rightarrow> byte list \<Rightarrow> code_block
      \<Rightarrow> (code_region_writer \<times> memory \<times> code_block) option" where
  "write_cb w mem buffer cb =
     (let size = (word_of_nat (length buffer) :: u32) in
      if current_offset w + size > region_size (current_region w) then None
      else
        let dst = virtual_address (current_region w) + uint (current_offset w) in
        Some (w\<lparr>current_offset := current_offset w + size\<rparr>,
              memcpy mem dst buffer,
              cb\<lparr>cb_final_virtual_address := dst, cb_final_size := size\<rparr>))"

text \<open>\<open>advance()\<close>: its body is \<open>return false\<close>.\<close>

definition advance :: "code_region_writer \<Rightarrow> bool \<times> code_region_writer" where
  "advance w = (False, w)"

text \<open>
  \<open>force_write\<close>: \<open>while (!write(buffer, size, cb)) if (!advance()) return false;\<close>
\<close>

function force_write ::
    "code_region_writer \<Rightarrow> memory \<Rightarrow> byte list \<Rightarrow> code_block
      \<Rightarrow> (code_region_writer \<times> memory \<times> code_block) option" where
  "force_write w mem buffer cb =
     (case write_cb w mem buffer cb of
        Some r \<Rightarrow> Some r
      | None \<Rightarrow>
          if fst (advance w) then force_write (snd (advance w)) mem buffer cb else None)"
  by pat_completeness auto
termination
  by (relation "{}") (auto simp: advance_def)

declare force_write.simps [simp del]

section \<open>reencode_relative_branch\<close>

text \<open>
  The result of a successful call: the bytes written to \<open>buffer\<close>, the new \<open>length\<close>,
  \<open>operand_size\<close>, and the request that was handed to the encoder.
\<close>

record reencoded =
  new_bytes :: "byte list"
  new_length :: nat
  operand_size :: nat
  final_request :: encoder_request

text \<open>The first operand of the request is replaced by the immediate \<open>v\<close>.\<close>

definition set_imm :: "operand list \<Rightarrow> int \<Rightarrow> operand list" where
  "set_imm ops v = (case ops of [] \<Rightarrow> [] | op # rest \<Rightarrow>
     (case op of OPERAND_IMMEDIATE r _ \<Rightarrow> OPERAND_IMMEDIATE r v # rest | _ \<Rightarrow> op # rest))"

definition is_single_immediate :: "operand list \<Rightarrow> bool" where
  "is_single_immediate ops =
     (case ops of [OPERAND_IMMEDIATE r v] \<Rightarrow> True | _ \<Rightarrow> False)"

text \<open>
  The choice of the form: branch type, predicted instruction length and operand
  size, or \<open>None\<close> where the source returns \<open>false\<close>. \<open>delta\<close> and \<open>prefix_count\<close> are
  \<open>std::int64_t\<close> in the source, where signed overflow is undefined; the model
  computes on integers.
\<close>

definition select_branch_form ::
    "category \<Rightarrow> int \<Rightarrow> int \<Rightarrow> (branch_type \<times> int \<times> nat) option" where
  "select_branch_form cat prefix_count delta =
     (let is_jmp = (cat = CATEGORY_UNCOND_BR);
          is_jcc = (cat = CATEGORY_COND_BR);
          is_call = (\<not> is_jmp \<and> \<not> is_jcc)
      in if \<not> is_call \<and> \<bar>delta - (prefix_count + 2)\<bar> \<le> 0x7F
           then Some (BRANCH_TYPE_SHORT, prefix_count + 2, 1)
         else if \<not> is_jcc \<and> \<bar>delta - (prefix_count + 5)\<bar> \<le> 0x7FFFFFFF
           then Some (BRANCH_TYPE_NEAR, prefix_count + 5, 4)
         else if is_jcc \<and> \<bar>delta - (prefix_count + 6)\<bar> \<le> 0x7FFFFFFF
           then Some (BRANCH_TYPE_NEAR, prefix_count + 6, 4)
         else None)"

text \<open>
  \<open>reencode_relative_branch\<close>. The outer \<open>Inl\<close> is a failed assertion, the inner
  \<open>None\<close> is the \<open>return false\<close> of the source. \<open>length\<close> enters as the capacity of
  \<open>buffer\<close>.
\<close>

definition reencode_relative_branch ::
    "zydis \<Rightarrow> decoded_instruction \<Rightarrow> int \<Rightarrow> nat \<Rightarrow> error + reencoded option" where
  "reencode_relative_branch z d delta capacity =
     (if \<not> attrib_is_relative d \<or> insn_branch_type d = BRANCH_TYPE_NONE
         \<or> attrib_has_modrm d then Inl AssertionFailed
      else case ToEncoderRequest z d of
        None \<Rightarrow> Inl AssertionFailed
      | Some req \<Rightarrow>
          let prefix_count = int (popcnt64 (req_prefixes req)) in
          (case select_branch_form (insn_category d) prefix_count delta of
             None \<Rightarrow> Inr None
           | Some (bt, predicted_instruction_length, opsize) \<Rightarrow>
               if \<not> is_single_immediate (req_operands req) then Inl AssertionFailed
               else
                 let req' = req\<lparr>req_branch_type := bt,
                       req_operands := set_imm (req_operands req)
                                         (delta - predicted_instruction_length)\<rparr>
                 in (case ZydisEncoderEncodeInstruction z req' capacity of
                       None \<Rightarrow> Inl AssertionFailed
                     | Some bs \<Rightarrow>
                         if predicted_instruction_length \<noteq> int (length bs)
                         then Inl AssertionFailed
                         else Inr (Some \<lparr>new_bytes = bs, new_length = length bs,
                                operand_size = opsize, final_request = req'\<rparr>))))"

section \<open>parse2: recursive disassembly\<close>

text \<open>
  \<open>create_empty_code_block\<close> appends a block to \<open>code_blocks_\<close> and returns a
  pointer to it. Every use of the returned pointer in \<open>parse2\<close> is to the last
  element of the vector, so the model carries the vector as the list of the blocks
  before the last and the last block \<open>cb\<close>.
\<close>

definition create_empty_code_block :: "u32 \<Rightarrow> u32 \<Rightarrow> code_block" where
  "create_empty_code_block rva file_offset =
     \<lparr>cb_final_virtual_address = 0, cb_virtual_offset = rva, cb_file_offset = file_offset,
      cb_file_size = 0, cb_final_size = 0, cb_is_relative = False\<rparr>"

definition already_disassembled :: "u32 \<Rightarrow> bool" where
  "already_disassembled rva = False"

text \<open>
  The body of the decoding loop after a successful decode, up to and including
  \<open>instruction_offset += decoded_instruction.length\<close>. The \<open>if\<close> on the categories
  CALL, UNCOND_BR and COND_BR holds two log statements and nothing else, so it
  leaves no trace here. The position of the instruction is \<open>block_offset +
  instruction_offset\<close> and \<open>file_offset + instruction_offset\<close>, both 32-bit sums.
\<close>

definition append_decoded ::
    "u32 \<Rightarrow> u32 \<Rightarrow> nat \<Rightarrow> decoded_instruction \<Rightarrow> code_block list \<times> code_block
      \<Rightarrow> error + (code_block list \<times> code_block)" where
  "append_decoded block_offset file_offset instruction_offset d st =
     (let (cbs, cb) = st;
          here = create_empty_code_block (block_offset + word_of_nat instruction_offset)
                   (file_offset + word_of_nat instruction_offset)
      in if cb_is_relative cb \<and> \<not> cb_file_size cb > 0 then Inl AssertionFailed
      else
        let (cbs1, cb1) = (if cb_is_relative cb then (cbs @ [cb], here) else (cbs, cb)) in
        if attrib_is_relative d then
          (let (cbs2, cb2) = (if cb_file_size cb1 > 0 then (cbs1 @ [cb1], here)
                              else (cbs1, cb1))
           in if cb_file_size cb2 \<noteq> 0 then Inl AssertionFailed
              else Inr (cbs2, cb2\<lparr>cb_is_relative := True,
                          cb_file_size := word_of_nat (insn_length d),
                          cb_final_size := word_of_nat (insn_length d + 32)\<rparr>))
        else if cb_is_relative cb1 then Inl AssertionFailed
        else Inr (cbs1, cb1\<lparr>cb_file_size := cb_file_size cb1 + word_of_nat (insn_length d),
                    cb_final_size := cb_expected_size cb1 + word_of_nat (insn_length d)\<rparr>))"

definition is_exit_point :: "decoded_instruction \<Rightarrow> bool" where
  "is_exit_point d \<longleftrightarrow>
     insn_category d = CATEGORY_RET \<or> insn_category d = CATEGORY_INTERRUPT
     \<or> insn_category d = CATEGORY_UNCOND_BR"

text \<open>
  The loop \<open>for (instruction_offset = 0; true;)\<close>. The decoder is given the file
  buffer from \<open>file_offset + instruction_offset\<close> to its end; a position at or past
  the end of the buffer leaves it no bytes, and decoding fails. The result is the
  status of the loop (\<open>None\<close> for \<open>break\<close>) and \<open>code_blocks_\<close> at that point.
  \<open>instruction_offset\<close> is a natural number: it stays below the length of the file
  buffer, which a 32-bit file offset addresses.
\<close>

function decode_block ::
    "zydis \<Rightarrow> byte list \<Rightarrow> u32 \<Rightarrow> u32 \<Rightarrow> nat \<Rightarrow> code_block list \<times> code_block
      \<Rightarrow> error option \<times> code_block list" where
  "decode_block z file_buffer block_offset file_offset instruction_offset st =
     (case ZydisDecoderDecode z (drop (unat file_offset + instruction_offset) file_buffer) of
        None \<Rightarrow> (Some DecodeFailed, fst st @ [snd st])
      | Some d \<Rightarrow>
          (case append_decoded block_offset file_offset instruction_offset d st of
             Inl e \<Rightarrow> (Some e, fst st @ [snd st])
           | Inr st' \<Rightarrow>
               if is_exit_point d then
                 (if insn_opcode d = 0xCC then (Some AssertionFailed, fst st' @ [snd st'])
                  else (None, fst st' @ [snd st']))
               else decode_block z file_buffer block_offset file_offset
                      (instruction_offset + insn_length d) st'))"
  by pat_completeness auto
termination
proof (relation "measure (\<lambda>(z, file_buffer, block_offset, file_offset, instruction_offset, st).
                            length file_buffer - (unat file_offset + instruction_offset))",
       goal_cases)
  case 1
  show ?case by simp
next
  case (2 z file_buffer block_offset file_offset instruction_offset st d st')
  then have "1 \<le> insn_length d"
    and "insn_length d \<le> length (drop (unat file_offset + instruction_offset) file_buffer)"
    by (auto simp: ZydisDecoderDecode_def split: option.splits if_splits)
  then show ?case by simp
qed

text \<open>
  The loop \<open>while (!process_queue.empty())\<close>. The queue is a vector used as a
  stack: \<open>back()\<close> and \<open>pop_back()\<close> take its last element, which is the head of
  the list here. Nothing in the loop pushes onto the queue.
\<close>

fun process_queue_loop ::
    "zydis \<Rightarrow> section_header list \<Rightarrow> byte list \<Rightarrow> u32 list \<Rightarrow> code_block list
      \<Rightarrow> error option \<times> code_block list" where
  "process_queue_loop z sections file_buffer [] cbs = (None, cbs)"
| "process_queue_loop z sections file_buffer (block_offset # process_queue) cbs =
     (if already_disassembled block_offset
      then process_queue_loop z sections file_buffer process_queue cbs
      else
        let file_offset = rva_to_file_offset sections block_offset in
        (case decode_block z file_buffer block_offset file_offset 0
                (cbs, create_empty_code_block block_offset file_offset) of
           (Some e, cbs') \<Rightarrow> (Some e, cbs')
         | (None, cbs') \<Rightarrow> process_queue_loop z sections file_buffer process_queue cbs'))"

text \<open>
  \<open>parse2\<close>: the queue is filled with \<open>BeginAddress\<close> of every runtime function, in
  order, and processed from its back. The result is \<open>None\<close> for \<open>return true\<close>, and
  \<open>code_blocks_\<close> as the function leaves it.
\<close>

definition parse2 ::
    "zydis \<Rightarrow> section_header list \<Rightarrow> byte list \<Rightarrow> u32 list \<Rightarrow> error option \<times> code_block list" where
  "parse2 z sections file_buffer begin_addresses =
     process_queue_loop z sections file_buffer (rev begin_addresses) []"

text \<open>\<open>rva_to_code_block\<close>: the first block whose half-open range holds the RVA.\<close>

fun rva_to_code_block :: "code_block list \<Rightarrow> u32 \<Rightarrow> code_block option" where
  "rva_to_code_block [] rva = None"
| "rva_to_code_block (cb # cbs) rva =
     (if rva < cb_virtual_offset cb \<or> rva \<ge> cb_virtual_offset cb + cb_file_size cb
      then rva_to_code_block cbs rva else Some cb)"

section \<open>write_data_blocks\<close>

text \<open>
  The loop \<open>for (auto& db : data_blocks_)\<close>. \<open>curr_region_idx\<close> is never changed, so
  the current region is the first data region throughout; \<open>curr_region_offset\<close> is
  a 32-bit offset into it. The result holds the data blocks with their final
  addresses and the memory after the writes.
\<close>

fun write_data_blocks_loop ::
    "byte list \<Rightarrow> memory_region \<Rightarrow> u32 \<Rightarrow> data_block list \<Rightarrow> memory
      \<Rightarrow> error + (data_block list \<times> memory)" where
  "write_data_blocks_loop file_buffer curr_region curr_region_offset [] mem = Inr ([], mem)"
| "write_data_blocks_loop file_buffer curr_region curr_region_offset (db # dbs) mem =
     (let remaining_region_size = region_size curr_region - curr_region_offset in
      if db_virtual_size db > remaining_region_size then Inl OutOfSpaceData
      else
        let dst = virtual_address curr_region + uint curr_region_offset;
            db' = db\<lparr>db_final_virtual_address := dst\<rparr>;
            zeroed = memset mem dst 0 (unat (db_virtual_size db));
            copied =
              (if db_file_size db > 0 then
                 (case file_bytes file_buffer (unat (db_file_offset db))
                         (unat (min (db_file_size db) (db_virtual_size db))) of
                    None \<Rightarrow> Inl InvalidAccess
                  | Some bytes \<Rightarrow> Inr (memcpy zeroed dst bytes))
               else Inr zeroed)
        in case copied of
             Inl e \<Rightarrow> Inl e
           | Inr mem' \<Rightarrow>
               (case write_data_blocks_loop file_buffer curr_region
                       (curr_region_offset + db_virtual_size db) dbs mem' of
                  Inl e \<Rightarrow> Inl e
                | Inr (dbs', mem'') \<Rightarrow> Inr (db' # dbs', mem'')))"

definition write_data_blocks ::
    "byte list \<Rightarrow> memory_region list \<Rightarrow> data_block list \<Rightarrow> memory
      \<Rightarrow> error + (data_block list \<times> memory)" where
  "write_data_blocks file_buffer data_regions data_blocks mem =
     (if data_blocks = [] then Inr (data_blocks, mem)
      else if data_regions = [] then Inl NoDataRegions
      else write_data_blocks_loop file_buffer (hd data_regions) 0 data_blocks mem)"

section \<open>calculate_adjusted_target_delta\<close>

text \<open>The first loop: the first data block whose virtual range holds the target.\<close>

fun data_target :: "data_block list \<Rightarrow> u32 \<Rightarrow> data_block option" where
  "data_target [] target_virtual_offset = None"
| "data_target (db # dbs) target_virtual_offset =
     (if target_virtual_offset < db_virtual_offset db
         \<or> target_virtual_offset \<ge> db_virtual_offset db + db_virtual_size db
      then data_target dbs target_virtual_offset
      else Some db)"

text \<open>
  The backward search \<open>for (i = current_cb_idx + 1; i > 0; --i)\<close> over
  \<open>code_blocks_[i - 1]\<close>; the list holds the blocks in the order of the visit. The
  result is the final address of the target, or \<open>None\<close> for \<open>return false\<close>.
\<close>

fun backward_target :: "code_block list \<Rightarrow> u32 \<Rightarrow> addr option" where
  "backward_target [] target_virtual_offset = None"
| "backward_target (cb # cbs) target_virtual_offset =
     (if target_virtual_offset < cb_virtual_offset cb
         \<or> target_virtual_offset > cb_virtual_offset cb + cb_file_size cb
      then backward_target cbs target_virtual_offset
      else if cb_is_relative cb \<and> cb_virtual_offset cb \<noteq> target_virtual_offset then None
      else Some (cb_final_virtual_address cb
                  + uint (target_virtual_offset - cb_virtual_offset cb)))"

text \<open>
  The forward loop \<open>for (i = current_cb_idx; i < code_blocks_.size(); ++i)\<close>: the list
  holds the blocks from \<open>current_cb_idx\<close> on, \<open>target_delta\<close> is the 64-bit
  accumulator.
\<close>

fun forward_delta :: "code_block list \<Rightarrow> u32 \<Rightarrow> int \<Rightarrow> int option" where
  "forward_delta [] target_virtual_offset target_delta = None"
| "forward_delta (cb # cbs) target_virtual_offset target_delta =
     (if target_virtual_offset < cb_virtual_offset cb
         \<or> target_virtual_offset > cb_virtual_offset cb + cb_file_size cb
      then forward_delta cbs target_virtual_offset (target_delta + uint (cb_expected_size cb))
      else Some (target_delta + uint (cb_expected_size cb)))"

text \<open>
  \<open>target_delta\<close> and \<open>fully_resolved\<close> are reference parameters: they enter with
  the values of the caller and leave in the result. The inner \<open>None\<close> is
  \<open>return false\<close>.
\<close>

definition calculate_adjusted_target_delta ::
    "data_block list \<Rightarrow> code_block list \<Rightarrow> addr \<Rightarrow> nat \<Rightarrow> u32 \<Rightarrow> int \<Rightarrow> bool
      \<Rightarrow> error + (int \<times> bool) option" where
  "calculate_adjusted_target_delta data_blocks code_blocks current_instruction_address
       current_cb_idx target_virtual_offset target_delta fully_resolved =
     (let cb = code_blocks ! current_cb_idx in
      if \<not> cb_is_relative cb then Inl AssertionFailed
      else case data_target data_blocks target_virtual_offset of
        Some db \<Rightarrow>
          Inr (Some (db_final_virtual_address db
                       + uint (target_virtual_offset - db_virtual_offset db)
                       - current_instruction_address, True))
      | None \<Rightarrow>
          if target_virtual_offset < cb_virtual_offset cb then
            (case backward_target (rev (take (current_cb_idx + 1) code_blocks))
                    target_virtual_offset of
               None \<Rightarrow> Inr None
             | Some target_final_address \<Rightarrow>
                 Inr (Some (target_final_address - current_instruction_address, True)))
          else
            (case forward_delta (drop current_cb_idx code_blocks) target_virtual_offset
                    target_delta of
               None \<Rightarrow> Inr None
             | Some d \<Rightarrow> Inr (Some (d, fully_resolved))))"

section \<open>write_code_blocks\<close>

text \<open>The four bytes of a 32-bit value in memory, least significant first.\<close>

definition le32 :: "u32 \<Rightarrow> byte list" where
  "le32 w = [ucast w, ucast (drop_bit 8 w), ucast (drop_bit 16 w), ucast (drop_bit 24 w)]"

record forward_target =
  instruction_address :: addr
  ft_virtual_offset :: u32
  patch_offset :: nat
  patch_length :: nat
  instruction_length :: nat

text \<open>
  \<open>std::priority_queue\<close> with \<open>compare\<close> (less on \<open>virtual_offset\<close>): \<open>top()\<close> is an
  element with the greatest \<open>virtual_offset\<close>. The queue is a list in descending
  order of \<open>virtual_offset\<close> with \<open>top()\<close> at its head; among equal keys the order
  is that of the insertion.
\<close>

fun pq_push :: "forward_target \<Rightarrow> forward_target list \<Rightarrow> forward_target list" where
  "pq_push x [] = [x]"
| "pq_push x (y # ys) =
     (if ft_virtual_offset y < ft_virtual_offset x then x # y # ys else y # pq_push x ys)"

text \<open>
  \<open>get_instruction_target_delta\<close>: the value behind the returned pointer, \<open>None\<close>
  for \<open>nullptr\<close>. The source tests the type of \<open>decoded_operands[i]\<close> and points into
  \<open>encoder_request->operands[i]\<close>; the operand list of the request stands for both.
\<close>

fun get_instruction_target_delta :: "operand list \<Rightarrow> int option" where
  "get_instruction_target_delta [] = None"
| "get_instruction_target_delta (OPERAND_MEMORY disp # ops) = Some disp"
| "get_instruction_target_delta (OPERAND_IMMEDIATE rel v # ops) =
     (if rel then Some v else get_instruction_target_delta ops)"
| "get_instruction_target_delta (OPERAND_OTHER # ops) = get_instruction_target_delta ops"

record emit_state =
  es_code_blocks :: "code_block list"
  es_writer :: code_region_writer
  es_memory :: memory
  es_forward_targets :: "forward_target list"

text \<open>
  The loop \<open>while (!forward_targets.empty() && forward_targets.top().virtual_offset <=
  cb.virtual_offset + cb.file_size)\<close>, with \<open>cb\<close> the block just written.
\<close>

fun drain_forward_targets ::
    "code_block \<Rightarrow> forward_target list \<Rightarrow> memory \<Rightarrow> error + (forward_target list \<times> memory)" where
  "drain_forward_targets cb [] mem = Inr ([], mem)"
| "drain_forward_targets cb (target # rest) mem =
     (if ft_virtual_offset target \<le> cb_virtual_offset cb + cb_file_size cb then
        (if \<not> ft_virtual_offset target \<ge> cb_virtual_offset cb then Inl AssertionFailed
         else
           let target_final_address = cb_final_virtual_address cb
                 + uint (ft_virtual_offset target - cb_virtual_offset cb);
               delta = target_final_address
                 - (instruction_address target + int (instruction_length target))
           in if \<not> (patch_length target = 1 \<or> patch_length target = 4)
              then Inl AssertionFailed
              else drain_forward_targets cb rest
                     (memcpy mem (instruction_address target + int (patch_offset target))
                        (if patch_length target = 1 then [word_of_int delta]
                         else le32 (word_of_int delta))))
      else Inr (target # rest, mem))"

text \<open>\<open>memcpy(buffer + off, bytes, n)\<close> inside a local array.\<close>

definition overwrite :: "byte list \<Rightarrow> nat \<Rightarrow> byte list \<Rightarrow> byte list" where
  "overwrite buffer off bytes = take off buffer @ bytes @ drop (off + length bytes) buffer"

text \<open>
  The chain \<open>if (HAS_MODRM) ... else if (branch_type != NONE) ... else ...\<close> in the
  body of the loop: the bytes of \<open>new_instruction\<close> up to \<open>new_instruction_length\<close>
  and the forward targets after the chain. \<open>uninitialized\<close> is the content of the
  local array \<open>new_instruction\<close> before anything is written to it; \<open>here\<close> is
  \<open>writer.current_write_address()\<close>.
\<close>

definition fix_relative_instruction ::
    "zydis \<Rightarrow> byte list \<Rightarrow> (nat \<Rightarrow> byte) \<Rightarrow> code_block \<Rightarrow> decoded_instruction \<Rightarrow> addr
      \<Rightarrow> u32 \<Rightarrow> int \<Rightarrow> bool \<Rightarrow> forward_target list
      \<Rightarrow> error + (byte list \<times> forward_target list)" where
  "fix_relative_instruction z file_buffer uninitialized cb d here target_virtual_offset delta
       fully_resolved forward_targets =
     (let new_instruction = map uninitialized [0..<ZYDIS_MAX_INSTRUCTION_LENGTH] in
      if attrib_has_modrm d then
        (let delta' = delta - int (insn_length d) in
         if \<bar>delta'\<bar> > 0x7FFFFFFF then Inl MemoryDeltaTooBig
         else if fully_resolved then
           (case file_bytes file_buffer (unat (cb_file_offset cb)) (insn_length d) of
              None \<Rightarrow> Inl InvalidAccess
            | Some bytes \<Rightarrow>
                if disp_offset d + 4 > ZYDIS_MAX_INSTRUCTION_LENGTH then Inl InvalidAccess
                else Inr (take (insn_length d)
                            (overwrite (overwrite new_instruction 0 bytes)
                               (disp_offset d) (le32 (word_of_int delta'))),
                          forward_targets))
         else Inr (new_instruction,
                   pq_push \<lparr>instruction_address = here,
                             ft_virtual_offset = target_virtual_offset,
                             patch_offset = disp_offset d, patch_length = 4,
                             instruction_length = insn_length d\<rparr>
                      forward_targets))
      else if insn_branch_type d \<noteq> BRANCH_TYPE_NONE then
        (if insn_branch_type d = BRANCH_TYPE_FAR then Inl AssertionFailed
         else case reencode_relative_branch z d delta ZYDIS_MAX_INSTRUCTION_LENGTH of
           Inl e \<Rightarrow> Inl e
         | Inr None \<Rightarrow> Inl BranchNotEncodable
         | Inr (Some r) \<Rightarrow>
             Inr (new_bytes r,
                  if \<not> fully_resolved then
                    pq_push \<lparr>instruction_address = here,
                              ft_virtual_offset = target_virtual_offset,
                              patch_offset = new_length r - operand_size r,
                              patch_length = operand_size r,
                              instruction_length = new_length r\<rparr>
                       forward_targets
                  else forward_targets))
      else Inl UnhandledRelative)"

text \<open>
  The body of the loop for a relative block \<open>code_blocks_[curr_cb_idx]\<close>, from the
  decoding of its one instruction to the draining of the forward targets.
\<close>

definition write_relative_block ::
    "zydis \<Rightarrow> byte list \<Rightarrow> (nat \<Rightarrow> byte) \<Rightarrow> data_block list \<Rightarrow> nat \<Rightarrow> emit_state
      \<Rightarrow> error + emit_state" where
  "write_relative_block z file_buffer uninitialized data_blocks curr_cb_idx st =
     (let cb = es_code_blocks st ! curr_cb_idx in
      case ZydisDecoderDecode z
             (take (unat (cb_file_size cb)) (drop (unat (cb_file_offset cb)) file_buffer)) of
        None \<Rightarrow> Inl DecodeFailed
      | Some d \<Rightarrow>
        if \<not> attrib_is_relative d then Inl AssertionFailed
        else case ToEncoderRequest z d of
          None \<Rightarrow> Inl EncoderRequestFailed
        | Some req \<Rightarrow>
          (case get_instruction_target_delta (req_operands req) of
             None \<Rightarrow> Inl InvalidAccess
           | Some v \<Rightarrow>
             let target_virtual_offset =
                   cb_virtual_offset cb + word_of_nat (insn_length d) + word_of_int v;
                 here = current_write_address (es_writer st)
             in case calculate_adjusted_target_delta data_blocks (es_code_blocks st) here
                       curr_cb_idx target_virtual_offset 0 False of
               Inl e \<Rightarrow> Inl e
             | Inr None \<Rightarrow> Inl TargetDeltaFailed
             | Inr (Some (delta, fully_resolved)) \<Rightarrow>
               (case fix_relative_instruction z file_buffer uninitialized cb d here
                       target_virtual_offset delta fully_resolved (es_forward_targets st) of
                  Inl e \<Rightarrow> Inl e
                | Inr (bytes, forward_targets) \<Rightarrow>
                    (case force_write (es_writer st) (es_memory st) bytes cb of
                       None \<Rightarrow> Inl OutOfSpaceCode
                     | Some (w', mem', cb') \<Rightarrow>
                         (case drain_forward_targets cb' forward_targets mem' of
                            Inl e \<Rightarrow> Inl e
                          | Inr (forward_targets', mem'') \<Rightarrow>
                              Inr \<lparr>es_code_blocks = (es_code_blocks st)[curr_cb_idx := cb'],
                                   es_writer = w', es_memory = mem'',
                                   es_forward_targets = forward_targets'\<rparr>)))))"

text \<open>
  The body of the loop for a block that is not relative: the bytes of the block
  are copied, and \<open>continue\<close> skips the rest of the body.
\<close>

definition write_plain_block :: "byte list \<Rightarrow> nat \<Rightarrow> emit_state \<Rightarrow> error + emit_state" where
  "write_plain_block file_buffer curr_cb_idx st =
     (let cb = es_code_blocks st ! curr_cb_idx in
      case file_bytes file_buffer (unat (cb_file_offset cb)) (unat (cb_file_size cb)) of
        None \<Rightarrow> Inl InvalidAccess
      | Some bytes \<Rightarrow>
          (case force_write (es_writer st) (es_memory st) bytes cb of
             None \<Rightarrow> Inl OutOfSpaceCode
           | Some (w', mem', cb') \<Rightarrow>
               Inr (st\<lparr>es_code_blocks := (es_code_blocks st)[curr_cb_idx := cb'],
                       es_writer := w', es_memory := mem'\<rparr>)))"

definition write_code_block ::
    "zydis \<Rightarrow> byte list \<Rightarrow> (nat \<Rightarrow> byte) \<Rightarrow> data_block list \<Rightarrow> nat \<Rightarrow> emit_state
      \<Rightarrow> error + emit_state" where
  "write_code_block z file_buffer uninitialized data_blocks curr_cb_idx st =
     (if \<not> cb_is_relative (es_code_blocks st ! curr_cb_idx)
      then write_plain_block file_buffer curr_cb_idx st
      else write_relative_block z file_buffer uninitialized data_blocks curr_cb_idx st)"

text \<open>The loop \<open>for (curr_cb_idx = 0; curr_cb_idx < code_blocks_.size(); ++curr_cb_idx)\<close>.\<close>

fun write_code_blocks_loop ::
    "zydis \<Rightarrow> byte list \<Rightarrow> (nat \<Rightarrow> byte) \<Rightarrow> data_block list \<Rightarrow> nat list \<Rightarrow> emit_state
      \<Rightarrow> error + emit_state" where
  "write_code_blocks_loop z file_buffer uninitialized data_blocks [] st = Inr st"
| "write_code_blocks_loop z file_buffer uninitialized data_blocks (curr_cb_idx # rest) st =
     (case write_code_block z file_buffer uninitialized data_blocks curr_cb_idx st of
        Inl e \<Rightarrow> Inl e
      | Inr st' \<Rightarrow> write_code_blocks_loop z file_buffer uninitialized data_blocks rest st')"

text \<open>
  \<open>write_code_blocks\<close> up to the call of \<open>fix_imports\<close>, which fills the import
  thunks through the loader of the host and is not part of the model. The result
  is the state at the end of the loop: the code blocks, the memory, and the forward
  targets still pending (a local variable of the source, dropped on return).
\<close>

definition write_code_blocks ::
    "zydis \<Rightarrow> byte list \<Rightarrow> (nat \<Rightarrow> byte) \<Rightarrow> data_block list \<Rightarrow> code_block list
      \<Rightarrow> memory_region list \<Rightarrow> memory
      \<Rightarrow> error + (code_block list \<times> memory \<times> forward_target list)" where
  "write_code_blocks z file_buffer uninitialized data_blocks code_blocks code_regions mem =
     (if code_blocks = [] then Inr (code_blocks, mem, [])
      else if code_regions = [] then Inl NoCodeRegions
      else case write_code_blocks_loop z file_buffer uninitialized data_blocks
                  [0..<length code_blocks]
                  \<lparr>es_code_blocks = code_blocks, es_writer = new_writer code_regions,
                   es_memory = mem, es_forward_targets = []\<rparr> of
             Inl e \<Rightarrow> Inl e
           | Inr st \<Rightarrow> Inr (es_code_blocks st, es_memory st, es_forward_targets st))"

text \<open>\<open>chum_parser::write\<close>: the data blocks, then the code blocks.\<close>

definition chum_write ::
    "zydis \<Rightarrow> byte list \<Rightarrow> (nat \<Rightarrow> byte) \<Rightarrow> data_block list \<Rightarrow> code_block list
      \<Rightarrow> memory_region list \<Rightarrow> memory_region list \<Rightarrow> memory
      \<Rightarrow> error + (data_block list \<times> code_block list \<times> memory \<times> forward_target list)" where
  "chum_write z file_buffer uninitialized data_blocks code_blocks data_regions code_regions mem =
     (case write_data_blocks file_buffer data_regions data_blocks mem of
        Inl e \<Rightarrow> Inl e
      | Inr (data_blocks', mem') \<Rightarrow>
          (case write_code_blocks z file_buffer uninitialized data_blocks' code_blocks
                  code_regions mem' of
             Inl e \<Rightarrow> Inl e
           | Inr (code_blocks', mem'', pending) \<Rightarrow>
               Inr (data_blocks', code_blocks', mem'', pending)))"

section \<open>A fragment of x86-64 for the examples\<close>

text \<open>
  The examples below run the model on real encodings. This decoder and encoder
  know NOP (90), RET (C3), INT3 (CC), CALL rel32 (E8), JMP rel32 (E9), JMP rel8
  (EB), Jcc rel8 (70..7F), Jcc rel32 (0F 80..8F) and MOV RAX, [RIP+disp32]
  (48 8B 05), all without prefixes.
\<close>

definition from_le32 :: "byte \<Rightarrow> byte \<Rightarrow> byte \<Rightarrow> byte \<Rightarrow> u32" where
  "from_le32 b0 b1 b2 b3 =
     ucast b0 OR push_bit 8 (ucast b1) OR push_bit 16 (ucast b2) OR push_bit 24 (ucast b3)"

definition plain :: "nat \<Rightarrow> category \<Rightarrow> byte \<Rightarrow> decoded_instruction" where
  "plain n cat opc = \<lparr>insn_length = n, insn_category = cat,
     insn_branch_type = BRANCH_TYPE_NONE, attrib_is_relative = False,
     attrib_has_modrm = False, insn_opcode = opc, disp_offset = 0, insn_operands = []\<rparr>"

definition rel_branch ::
    "nat \<Rightarrow> category \<Rightarrow> branch_type \<Rightarrow> byte \<Rightarrow> int \<Rightarrow> decoded_instruction" where
  "rel_branch n cat bt opc imm = \<lparr>insn_length = n, insn_category = cat,
     insn_branch_type = bt, attrib_is_relative = True,
     attrib_has_modrm = False, insn_opcode = opc, disp_offset = 0,
     insn_operands = [OPERAND_IMMEDIATE True imm]\<rparr>"

fun tiny_decode :: "byte list \<Rightarrow> decoded_instruction option" where
  "tiny_decode [] = None"
| "tiny_decode (b # bs) =
     (if b = 0x90 then Some (plain 1 CATEGORY_OTHER b)
      else if b = 0xC3 then Some ((plain 1 CATEGORY_RET b)\<lparr>insn_branch_type := BRANCH_TYPE_NEAR\<rparr>)
      else if b = 0xCC then Some (plain 1 CATEGORY_INTERRUPT b)
      else if b = 0xEB then
        (case bs of i # _ \<Rightarrow> Some (rel_branch 2 CATEGORY_UNCOND_BR BRANCH_TYPE_SHORT b (sint i))
         | _ \<Rightarrow> None)
      else if 0x70 \<le> b \<and> b \<le> 0x7F then
        (case bs of i # _ \<Rightarrow> Some (rel_branch 2 CATEGORY_COND_BR BRANCH_TYPE_SHORT b (sint i))
         | _ \<Rightarrow> None)
      else if b = 0xE8 then
        (case bs of b0 # b1 # b2 # b3 # _ \<Rightarrow>
           Some (rel_branch 5 CATEGORY_CALL BRANCH_TYPE_NEAR b (sint (from_le32 b0 b1 b2 b3)))
         | _ \<Rightarrow> None)
      else if b = 0xE9 then
        (case bs of b0 # b1 # b2 # b3 # _ \<Rightarrow>
           Some (rel_branch 5 CATEGORY_UNCOND_BR BRANCH_TYPE_NEAR b
                   (sint (from_le32 b0 b1 b2 b3)))
         | _ \<Rightarrow> None)
      else if b = 0x0F then
        (case bs of c # b0 # b1 # b2 # b3 # _ \<Rightarrow>
           if 0x80 \<le> c \<and> c \<le> 0x8F
           then Some (rel_branch 6 CATEGORY_COND_BR BRANCH_TYPE_NEAR c
                        (sint (from_le32 b0 b1 b2 b3)))
           else None
         | _ \<Rightarrow> None)
      else if b = 0x48 then
        (case bs of m # r # b0 # b1 # b2 # b3 # _ \<Rightarrow>
           if m = 0x8B \<and> r = 0x05
           then Some \<lparr>insn_length = 7, insn_category = CATEGORY_OTHER,
                  insn_branch_type = BRANCH_TYPE_NONE, attrib_is_relative = True,
                  attrib_has_modrm = True, insn_opcode = m, disp_offset = 3,
                  insn_operands = [OPERAND_OTHER,
                                   OPERAND_MEMORY (sint (from_le32 b0 b1 b2 b3))]\<rparr>
           else None
         | _ \<Rightarrow> None)
      else None)"

definition tiny_request :: "decoded_instruction \<Rightarrow> encoder_request option" where
  "tiny_request d = Some \<lparr>req_instruction = d, req_prefixes = 0,
     req_branch_type = insn_branch_type d, req_operands = insn_operands d\<rparr>"

definition tiny_encode :: "encoder_request \<Rightarrow> byte list option" where
  "tiny_encode req =
     (case req_operands req of
        [OPERAND_IMMEDIATE r v] \<Rightarrow>
          (let cat = insn_category (req_instruction req);
               cc = insn_opcode (req_instruction req) AND 0x0F
           in if req_branch_type req = BRANCH_TYPE_SHORT \<and> - 128 \<le> v \<and> v \<le> 127 then
                (if cat = CATEGORY_UNCOND_BR then Some [0xEB, word_of_int v]
                 else if cat = CATEGORY_COND_BR then Some [0x70 OR cc, word_of_int v]
                 else None)
              else if req_branch_type req = BRANCH_TYPE_NEAR
                      \<and> - 0x80000000 \<le> v \<and> v \<le> 0x7FFFFFFF then
                (if cat = CATEGORY_UNCOND_BR then Some (0xE9 # le32 (word_of_int v))
                 else if cat = CATEGORY_CALL then Some (0xE8 # le32 (word_of_int v))
                 else if cat = CATEGORY_COND_BR
                   then Some (0x0F # (0x80 OR cc) # le32 (word_of_int v))
                 else None)
              else None)
      | _ \<Rightarrow> None)"

definition tiny_x86 :: zydis where
  "tiny_x86 = \<lparr>DecoderDecode = tiny_decode, ToEncoderRequest = tiny_request,
     EncoderEncode = tiny_encode\<rparr>"

section \<open>Vocabulary of the properties\<close>



text \<open>
  The bytes that \<open>write_data_blocks\<close> copies for a data block lie inside the file
  buffer (the source reads them without a check).
\<close>

definition readable :: "byte list \<Rightarrow> data_block \<Rightarrow> bool" where
  "readable file_buffer db \<longleftrightarrow>
     db_file_size db = 0 \<or>
     unat (db_file_offset db) + unat (min (db_file_size db) (db_virtual_size db))
       \<le> length file_buffer"

text \<open>The sum of the virtual sizes of the data blocks before block \<open>i\<close>.\<close>

definition space_before :: "data_block list \<Rightarrow> nat \<Rightarrow> nat" where
  "space_before dbs i = sum_list (map (\<lambda>db. unat (db_virtual_size db)) (take i dbs))"

text \<open>
  A data block in memory as the specification words it: zero-filled to
  \<open>virtual_size\<close>, with the first \<open>min(file_size, virtual_size)\<close> bytes taken from the
  file buffer at \<open>file_offset\<close>.
\<close>

definition block_image :: "byte list \<Rightarrow> data_block \<Rightarrow> byte list" where
  "block_image file_buffer db =
     (let n = unat (min (db_file_size db) (db_virtual_size db)) in
      take n (drop (unat (db_file_offset db)) file_buffer)
        @ replicate (unat (db_virtual_size db) - n) 0)"

text \<open>The \<open>n\<close> bytes of memory from address \<open>a\<close> on.\<close>

definition read_memory :: "memory \<Rightarrow> addr \<Rightarrow> nat \<Rightarrow> byte list" where
  "read_memory mem a n = map (\<lambda>k. mem (a + int k)) [0..<n]"

text \<open>
  The instructions that tile the \<open>n\<close> bytes of the file buffer from position
  \<open>pos\<close> on, each decoded as \<open>parse2\<close> decodes it (from the bytes up to the end of
  the buffer); \<open>None\<close> when the bytes do not split into whole instructions.
\<close>

function block_instructions ::
    "zydis \<Rightarrow> byte list \<Rightarrow> nat \<Rightarrow> nat \<Rightarrow> decoded_instruction list option" where
  "block_instructions z file_buffer pos n =
     (if n = 0 then Some []
      else case ZydisDecoderDecode z (drop pos file_buffer) of
        None \<Rightarrow> None
      | Some d \<Rightarrow>
          if insn_length d \<le> n
          then map_option ((#) d)
                 (block_instructions z file_buffer (pos + insn_length d) (n - insn_length d))
          else None)"
  by pat_completeness auto
termination
proof (relation "measure (\<lambda>(z, file_buffer, pos, n). n)", goal_cases)
  case 1
  show ?case by simp
next
  case (2 z file_buffer pos n d)
  then have "1 \<le> insn_length d"
    by (auto simp: ZydisDecoderDecode_def split: option.splits if_splits)
  with 2 show ?case by simp
qed

text \<open>
  A block as \<open>parse2\<close> builds it: its bytes are whole instructions; a relative block
  holds one instruction, which is relative, and any other block holds none that
  is; the expected size is the sum of the lengths plus 32 for each relative
  instruction.
\<close>

definition block_ok :: "zydis \<Rightarrow> byte list \<Rightarrow> code_block \<Rightarrow> bool" where
  "block_ok z file_buffer cb =
     (case block_instructions z file_buffer (unat (cb_file_offset cb))
             (unat (cb_file_size cb)) of
        None \<Rightarrow> False
      | Some ds \<Rightarrow>
          (if cb_is_relative cb then length ds = 1 \<and> list_all attrib_is_relative ds
           else list_all (\<lambda>d. \<not> attrib_is_relative d) ds)
          \<and> unat (cb_expected_size cb)
              = sum_list (map insn_length ds) + 32 * length (filter attrib_is_relative ds))"

text \<open>
  The state of the decoding loop of \<open>parse2\<close> at \<open>instruction_offset\<close>: the blocks are
  well built and the current block ends where the next instruction starts.
\<close>

definition parse_inv ::
    "zydis \<Rightarrow> byte list \<Rightarrow> u32 \<Rightarrow> nat \<Rightarrow> code_block list \<times> code_block \<Rightarrow> bool" where
  "parse_inv z file_buffer file_offset instruction_offset st \<longleftrightarrow>
     list_all (block_ok z file_buffer) (fst st) \<and> block_ok z file_buffer (snd st)
     \<and> unat (cb_file_offset (snd st)) + unat (cb_file_size (snd st))
         = unat file_offset + instruction_offset"

declare block_instructions.simps [simp del]


text \<open>The index of the first block whose closed range \<open>[virtual_offset, virtual_offset +
  file_size]\<close> holds the target: the test of the forward and backward searches.\<close>

fun first_closed :: "code_block list \<Rightarrow> u32 \<Rightarrow> nat option" where
  "first_closed [] target_virtual_offset = None"
| "first_closed (cb # cbs) target_virtual_offset =
     (if target_virtual_offset < cb_virtual_offset cb
         \<or> target_virtual_offset > cb_virtual_offset cb + cb_file_size cb
      then map_option Suc (first_closed cbs target_virtual_offset)
      else Some 0)"

text \<open>
  The test of the forward search, the backward search and the drain loop: the RVA
  lies in the closed range \<open>[virtual_offset, virtual_offset + file_size]\<close> of the
  block.
\<close>

definition in_closed_range :: "code_block \<Rightarrow> u32 \<Rightarrow> bool" where
  "in_closed_range cb rva \<longleftrightarrow>
     \<not> (rva < cb_virtual_offset cb \<or> rva > cb_virtual_offset cb + cb_file_size cb)"

text \<open>The block ends exactly at the RVA: the RVA is in its closed range and not in
  the half-open range that \<open>rva_to_code_block\<close> tests.\<close>

definition ends_at :: "code_block \<Rightarrow> u32 \<Rightarrow> bool" where
  "ends_at cb rva \<longleftrightarrow>
     \<not> rva < cb_virtual_offset cb \<and> rva = cb_virtual_offset cb + cb_file_size cb"

text \<open>The index of the block that \<open>rva_to_code_block\<close> returns.\<close>

fun rva_to_code_block_idx :: "code_block list \<Rightarrow> u32 \<Rightarrow> nat option" where
  "rva_to_code_block_idx [] rva = None"
| "rva_to_code_block_idx (cb # cbs) rva =
     (if rva < cb_virtual_offset cb \<or> rva \<ge> cb_virtual_offset cb + cb_file_size cb
      then map_option Suc (rva_to_code_block_idx cbs rva) else Some 0)"

text \<open>
  Where the sum of a forward target in block \<open>j\<close>, seen from block \<open>i\<close>, stops: at the
  first block from \<open>i\<close> on and before \<open>j\<close> that ends exactly at the target, and at \<open>j\<close>
  if there is none.
\<close>

definition forward_stop :: "code_block list \<Rightarrow> nat \<Rightarrow> nat \<Rightarrow> u32 \<Rightarrow> nat" where
  "forward_stop cbs i j rva =
     (case find (\<lambda>k. ends_at (cbs ! k) rva) [i..<j] of None \<Rightarrow> j | Some k \<Rightarrow> k)"

text \<open>The blocks \<open>i, ..., k\<close> of the vector.\<close>

definition blocks_from_to :: "code_block list \<Rightarrow> nat \<Rightarrow> nat \<Rightarrow> code_block list" where
  "blocks_from_to cbs i k = take (Suc (k - i)) (drop i cbs)"

section \<open>Example inputs\<close>


text \<open>One executable section at RVA 0x1000, stored at the start of the file.\<close>

definition text_section :: section_header where
  "text_section = \<lparr>VirtualAddress = 0x1000, VirtualSize = 0x100, PointerToRawData = 0,
     SizeOfRawData = 0x100, MemExecute = True\<rparr>"

text \<open>
  A function at RVA 0x1000: CALL 0x1006; RET. At 0x1006, the target of the call:
  NOP; RET.
\<close>

definition call_example :: "byte list" where
  "call_example = [0xE8, 0x01, 0, 0, 0, 0xC3, 0x90, 0xC3]"


text \<open>Two code regions of 256 bytes each.\<close>

definition two_regions :: "memory_region list" where
  "two_regions = [\<lparr>virtual_address = 0x10000, region_size = 256\<rparr>,
                  \<lparr>virtual_address = 0x20000, region_size = 256\<rparr>]"

text \<open>Two data blocks: one with two bytes on file and four in memory, one with none on file.\<close>

definition data_example :: "data_block list" where
  "data_example =
     [\<lparr>db_final_virtual_address = 0, db_virtual_offset = 0x2000, db_file_offset = 1,
        db_file_size = 2, db_virtual_size = 4\<rparr>,
      \<lparr>db_final_virtual_address = 0, db_virtual_offset = 0x3000, db_file_offset = 0,
        db_file_size = 0, db_virtual_size = 3\<rparr>]"

definition data_region_example :: "memory_region list" where
  "data_region_example = [\<lparr>virtual_address = 0x5000, region_size = 16\<rparr>]"

text \<open>
  A function at RVA 0x1000: JZ 0x1003; NOP; RET, and the blocks that \<open>parse2\<close> makes
  of it: the JZ alone, then NOP and RET.
\<close>

definition jz_example :: "byte list" where
  "jz_example = [0x74, 0x01, 0x90, 0xC3]"

definition jz_blocks :: "code_block list" where
  "jz_blocks =
     [\<lparr>cb_final_virtual_address = 0, cb_virtual_offset = 0x1000, cb_file_offset = 0,
        cb_file_size = 2, cb_final_size = 34, cb_is_relative = True\<rparr>,
      \<lparr>cb_final_virtual_address = 0, cb_virtual_offset = 0x1002, cb_file_offset = 2,
        cb_file_size = 2, cb_final_size = 2, cb_is_relative = False\<rparr>]"

definition code_region_example :: "memory_region list" where
  "code_region_example = [\<lparr>virtual_address = 0x10000, region_size = 0x100\<rparr>]"

section \<open>Properties\<close>

subsection \<open>Unmapped RVAs\<close>

lemma wrapped_end_le:
  fixes a b :: u32
  shows "unat (a + b) \<le> unat a + unat b"
  by (simp add: unat_word_ariths)

lemma section_test_in_range:
  assumes "rva \<ge> VirtualAddress s" and "rva < VirtualAddress s + VirtualSize s"
  shows "in_virtual_range s rva"
proof -
  from assms(1) have lo: "unat (VirtualAddress s) \<le> unat rva"
    by (simp add: word_le_nat_alt)
  from assms(2) have "unat rva < unat (VirtualAddress s + VirtualSize s)"
    by (simp add: word_less_nat_alt)
  also have "\<dots> \<le> unat (VirtualAddress s) + unat (VirtualSize s)"
    by (rule wrapped_end_le)
  finally show ?thesis using lo by (simp add: in_virtual_range_def)
qed

text \<open>
  C10. For every RVA that lies inside no section's virtual range
  \<open>[VirtualAddress, VirtualAddress + VirtualSize)\<close>, \<open>rva_to_file_offset\<close> returns 0.
  The function has no error result: \<open>parse2\<close>, its caller, takes the 0 for the file
  offset of the RVA and disassembles a function at such an RVA from the start of
  the file.
\<close>

theorem rva_to_file_offset_unmapped:
  assumes "\<forall>s \<in> set sections. \<not> in_virtual_range s rva"
  shows "rva_to_file_offset sections rva = 0
       \<and> parse2 z sections file_buffer [rva]
           = decode_block z file_buffer rva 0 0 ([], create_empty_code_block rva 0)"
proof -
  have zero: "rva_to_file_offset sections rva = 0"
    using assms
  proof (induction sections)
    case Nil
    then show ?case by simp
  next
    case (Cons s ss)
    then have "\<not> in_virtual_range s rva" by simp
    then have miss: "\<not> (rva \<ge> VirtualAddress s \<and> rva < VirtualAddress s + VirtualSize s)"
      using section_test_in_range by blast
    from Cons have "rva_to_file_offset ss rva = 0" by simp
    with miss show ?case by auto
  qed
  obtain status cbs where
    r: "decode_block z file_buffer rva 0 0 ([], create_empty_code_block rva 0) = (status, cbs)"
    by (cases "decode_block z file_buffer rva 0 0 ([], create_empty_code_block rva 0)")
  have "parse2 z sections file_buffer [rva] = (status, cbs)"
    using zero r by (cases status) (simp_all add: parse2_def already_disassembled_def)
  with zero r show ?thesis by simp
qed

theorem rva_to_file_offset_unmapped_witness:
  "\<not> in_virtual_range \<lparr>VirtualAddress = 0x1000, VirtualSize = 0x200,
       PointerToRawData = 0x400, SizeOfRawData = 0x200, MemExecute = True\<rparr> 0x1200 \<and>
   rva_to_file_offset [\<lparr>VirtualAddress = 0x1000, VirtualSize = 0x200,
       PointerToRawData = 0x400, SizeOfRawData = 0x200, MemExecute = True\<rparr>] 0x1200 = 0"
proof -
  have h: "\<forall>s \<in> set [\<lparr>VirtualAddress = 0x1000, VirtualSize = 0x200, PointerToRawData = 0x400,
                  SizeOfRawData = 0x200, MemExecute = True\<rparr>].
       \<not> in_virtual_range s 0x1200"
    by (simp add: in_virtual_range_def)
  show ?thesis using h rva_to_file_offset_unmapped [OF h] by simp
qed

subsection \<open>The form of a re-encoded branch\<close>





subsection \<open>Targets of calls and branches\<close>

text \<open>
  C1. The claim: the target of every decoded call or branch with an immediate
  operand is enqueued and later disassembled into a block of its own. In
  \<open>call_example\<close> the CALL at RVA 0x1000 targets 0x1006; \<open>parse2\<close> returns the block
  of the CALL and the block of the RET behind it, and no block holds 0x1006.
\<close>

theorem parse2_call_target_not_disassembled:
  "parse2 tiny_x86 [text_section] call_example [0x1000] =
     (None,
      [\<lparr>cb_final_virtual_address = 0, cb_virtual_offset = 0x1000, cb_file_offset = 0,
         cb_file_size = 5, cb_final_size = 37, cb_is_relative = True\<rparr>,
       \<lparr>cb_final_virtual_address = 0, cb_virtual_offset = 0x1005, cb_file_offset = 5,
         cb_file_size = 1, cb_final_size = 1, cb_is_relative = False\<rparr>])
   \<and> rva_to_code_block (snd (parse2 tiny_x86 [text_section] call_example [0x1000])) 0x1006
       = None"
  by (simp add: parse2_def text_section_def call_example_def already_disassembled_def
      create_empty_code_block_def ZydisDecoderDecode_def tiny_x86_def append_decoded_def
      is_exit_point_def rel_branch_def plain_def ZYDIS_MAX_INSTRUCTION_LENGTH_def)

subsection \<open>Region advancement\<close>

text \<open>
  C6. The claim: a write that would overflow the current code region makes the
  emitter advance to the next region. With two regions of 256 bytes, a block of
  200 bytes fills the first region up to offset 200; the next block, of 100 bytes,
  is not written: \<open>force_write\<close> fails although the second region is unused.
\<close>

theorem force_write_ignores_next_region:
  "map_option fst (force_write (new_writer two_regions) mem (replicate 200 0x90) cb)
     = Some ((new_writer two_regions)\<lparr>current_offset := 200\<rparr>)
   \<and> force_write ((new_writer two_regions)\<lparr>current_offset := 200\<rparr>) mem'
         (replicate 100 0x90) cb' = None
   \<and> advance ((new_writer two_regions)\<lparr>current_offset := 200\<rparr>)
       = (False, (new_writer two_regions)\<lparr>current_offset := 200\<rparr>)"
  by (simp add: force_write.simps new_writer_def two_regions_def write_cb_def advance_def)

subsection \<open>Data emission\<close>

lemma read_memcpy_same: "read_memory (memcpy mem a bs) a (length bs) = bs"
  by (auto simp: read_memory_def memcpy_def intro!: nth_equalityI)

lemma memcpy_outside: "a < dst \<or> dst + int (length bs) \<le> a \<Longrightarrow> memcpy mem dst bs a = mem a"
  by (auto simp: memcpy_def)

lemma read_memory_cong:
  "(\<And>k. k < n \<Longrightarrow> m1 (a + int k) = m2 (a + int k)) \<Longrightarrow> read_memory m1 a n = read_memory m2 a n"
  by (simp add: read_memory_def)

lemma offset_no_wrap:
  fixes off vs size :: u32
  assumes "off \<le> size" and "\<not> vs > size - off"
  shows "unat (off + vs) = unat off + unat vs" and "off + vs \<le> size"
    and "unat vs \<le> unat size - unat off"
proof -
  from assms(1) have s: "unat (size - off) = unat size - unat off" and le: "unat off \<le> unat size"
    by (simp_all add: unat_sub word_le_nat_alt)
  from assms(2) have "unat vs \<le> unat (size - off)"
    by (simp add: word_less_nat_alt not_less)
  with s show c: "unat vs \<le> unat size - unat off" by simp
  have "unat size < 2 ^ 32" using unsigned_less [of size] by simp
  with c le have "unat off + unat vs < 2 ^ 32" by linarith
  then show a: "unat (off + vs) = unat off + unat vs"
    by (simp add: unat_word_ariths)
  with c le show "off + vs \<le> size" by (simp add: word_le_nat_alt)
qed

lemma remaining_exceeded:
  fixes off vs size :: u32
  assumes "off \<le> size" and "vs > size - off"
  shows "unat vs > unat size - unat off"
proof -
  from assms(1) have s: "unat (size - off) = unat size - unat off"
    by (simp add: unat_sub word_le_nat_alt)
  with assms(2) show ?thesis by (simp add: word_less_nat_alt)
qed

lemma memset_memcpy:
  assumes "length bs \<le> n"
  shows "memcpy (memset mem dst 0 n) dst bs = memcpy mem dst (bs @ replicate (n - length bs) 0)"
proof
  fix a
  show "memcpy (memset mem dst 0 n) dst bs a = memcpy mem dst (bs @ replicate (n - length bs) 0) a"
    using assms by (auto simp: memcpy_def memset_def nth_append)
qed

lemma min_unat: "unat (min (a::u32) b) = min (unat a) (unat b)"
  by (simp add: min_def word_le_nat_alt)

lemma block_image_length:
  assumes "readable buf db"
  shows "length (block_image buf db) = unat (db_virtual_size db)"
proof (cases "db_file_size db = 0")
  case True
  then show ?thesis by (simp add: block_image_def Let_def min_unat)
next
  case False
  let ?n = "min (unat (db_file_size db)) (unat (db_virtual_size db))"
  from False assms have "unat (db_file_offset db) + ?n \<le> length buf"
    by (simp add: readable_def min_unat)
  then have "length (take ?n (drop (unat (db_file_offset db)) buf)) = ?n" by simp
  moreover have "?n \<le> unat (db_virtual_size db)" by simp
  ultimately show ?thesis
    by (simp add: block_image_def Let_def min_unat del: length_take length_drop)
qed

lemma write_data_blocks_loop_step:
  assumes "readable buf db"
  shows "write_data_blocks_loop buf r off (db # dbs) mem =
    (if db_virtual_size db > region_size r - off then Inl OutOfSpaceData
     else case write_data_blocks_loop buf r (off + db_virtual_size db) dbs
                 (memcpy mem (virtual_address r + uint off) (block_image buf db)) of
            Inl e \<Rightarrow> Inl e
          | Inr (dbs', m) \<Rightarrow>
              Inr (db\<lparr>db_final_virtual_address := virtual_address r + uint off\<rparr> # dbs', m))"
proof (cases "db_file_size db > 0")
  case True
  then have nz: "db_file_size db \<noteq> 0" by auto
  with assms have rd: "unat (db_file_offset db) + unat (min (db_file_size db) (db_virtual_size db))
       \<le> length buf" by (simp add: readable_def)
  let ?n = "unat (min (db_file_size db) (db_virtual_size db))"
  let ?bs = "take ?n (drop (unat (db_file_offset db)) buf)"
  have len: "length ?bs = ?n" using rd by simp
  have le: "?n \<le> unat (db_virtual_size db)" by (simp add: min_unat)
  have "memcpy (memset mem (virtual_address r + uint off) 0 (unat (db_virtual_size db)))
          (virtual_address r + uint off) ?bs
        = memcpy mem (virtual_address r + uint off) (block_image buf db)"
    using memset_memcpy [of ?bs "unat (db_virtual_size db)"] len le
    by (simp add: block_image_def Let_def)
  with True rd show ?thesis
    by (simp add: file_bytes_def Let_def)
next
  case False
  then have z: "db_file_size db = 0" using word_neq_0_conv by blast
  have "memset mem (virtual_address r + uint off) 0 (unat (db_virtual_size db))
        = memcpy mem (virtual_address r + uint off) (block_image buf db)"
    using z by (simp add: memset_def block_image_def Let_def min_unat)
  with z show ?thesis by (simp add: Let_def)
qed

lemma space_before_Suc [simp]:
  "space_before (db # dbs) (Suc i) = unat (db_virtual_size db) + space_before dbs i"
  by (simp add: space_before_def)

lemma space_before_0 [simp]: "space_before ds 0 = 0"
  by (simp add: space_before_def)

lemma write_data_blocks_loop_result:
  assumes "off \<le> region_size r" and "\<forall>db \<in> set dbs. readable buf db"
  shows "case write_data_blocks_loop buf r off dbs mem of
           Inl e \<Rightarrow> e = OutOfSpaceData \<and>
             (\<exists>i<length dbs. unat (db_virtual_size (dbs ! i))
                 > unat (region_size r) - (unat off + space_before dbs i))
         | Inr (dbs', mem') \<Rightarrow>
             (\<forall>i<length dbs. unat (db_virtual_size (dbs ! i))
                 \<le> unat (region_size r) - (unat off + space_before dbs i))
             \<and> length dbs' = length dbs
             \<and> (\<forall>i<length dbs. dbs' ! i = (dbs ! i)\<lparr>db_final_virtual_address :=
                    virtual_address r + int (unat off + space_before dbs i)\<rparr>)
             \<and> (\<forall>i<length dbs. read_memory mem'
                    (virtual_address r + int (unat off + space_before dbs i))
                    (unat (db_virtual_size (dbs ! i))) = block_image buf (dbs ! i))
             \<and> (\<forall>a. a < virtual_address r + int (unat off) \<longrightarrow> mem' a = mem a)"
  using assms
proof (induction dbs arbitrary: off mem)
  case Nil
  then show ?case by simp
next
  case (Cons db dbs)
  then have rd: "readable buf db" and rds: "\<forall>db \<in> set dbs. readable buf db" by simp_all
  note step = write_data_blocks_loop_step [OF rd, of r off dbs mem]
  show ?case
  proof (cases "db_virtual_size db > region_size r - off")
    case True
    then have "unat (db_virtual_size db) > unat (region_size r) - unat off"
      using remaining_exceeded Cons.prems(1) by blast
    with True step show ?thesis by (auto simp: Ex_less_Suc2)
  next
    case False
    note nw = offset_no_wrap [OF Cons.prems(1) False]
    let ?dst = "virtual_address r + uint off"
    let ?m1 = "memcpy mem ?dst (block_image buf db)"
    let ?off' = "off + db_virtual_size db"
    note IH = Cons.IH [OF nw(2) rds, of ?m1]
    show ?thesis
    proof (cases "write_data_blocks_loop buf r ?off' dbs ?m1")
      case (Inl e)
      with IH False step nw show ?thesis
        by (auto simp: Ex_less_Suc2 add.assoc)
    next
      case (Inr res)
      obtain dbs' mem' where res: "res = (dbs', mem')" by (cases res)
      from IH Inr res have
        fit: "\<forall>i<length dbs. unat (db_virtual_size (dbs ! i))
                 \<le> unat (region_size r) - (unat ?off' + space_before dbs i)"
        and len: "length dbs' = length dbs"
        and fin: "\<forall>i<length dbs. dbs' ! i = (dbs ! i)\<lparr>db_final_virtual_address :=
                    virtual_address r + int (unat ?off' + space_before dbs i)\<rparr>"
        and img: "\<forall>i<length dbs. read_memory mem'
                    (virtual_address r + int (unat ?off' + space_before dbs i))
                    (unat (db_virtual_size (dbs ! i))) = block_image buf (dbs ! i)"
        and frame: "\<forall>a. a < virtual_address r + int (unat ?off') \<longrightarrow> mem' a = ?m1 a"
        by simp_all
      have eq: "write_data_blocks_loop buf r off (db # dbs) mem =
                  Inr (db\<lparr>db_final_virtual_address := ?dst\<rparr> # dbs', mem')"
        using step False Inr res by simp
      have first: "read_memory mem' ?dst (unat (db_virtual_size db)) = block_image buf db"
      proof -
        have "read_memory mem' ?dst (unat (db_virtual_size db))
              = read_memory ?m1 ?dst (unat (db_virtual_size db))"
        proof (rule read_memory_cong)
          fix k assume k: "k < unat (db_virtual_size db)"
          have "uint (db_virtual_size db) = int (unat (db_virtual_size db))"
            by (rule uint_nat)
          with k have "?dst + int k < virtual_address r + int (unat ?off')"
            using nw(1) uint_nat [of off] by linarith
          with frame show "mem' (?dst + int k) = ?m1 (?dst + int k)" by blast
        qed
        also have "\<dots> = block_image buf db"
          using read_memcpy_same [of mem ?dst "block_image buf db"] block_image_length [OF rd] by simp
        finally show ?thesis .
      qed
      have below: "\<forall>a. a < ?dst \<longrightarrow> mem' a = mem a"
      proof (intro allI impI)
        fix a assume a: "a < ?dst"
        then have "a < virtual_address r + int (unat ?off')"
          using nw(1) uint_nat [of off] by linarith
        then have "mem' a = ?m1 a" using frame by simp
        also have "\<dots> = mem a" using a by (simp add: memcpy_outside)
        finally show "mem' a = mem a" .
      qed
      show ?thesis
        unfolding eq using fit len fin img nw first below
        by (simp add: All_less_Suc2 add.assoc)
    qed
  qed
qed

text \<open>
  C5. Data blocks are written in their order, one after the other into the first
  data region: each block gets the address behind its predecessor, holds its
  zero-filled image with the first \<open>min(file_size, virtual_size)\<close> bytes of the file
  at \<open>file_offset\<close>, and the emission fails, for want of space, exactly when the
  virtual size of some block exceeds what is left of the region at its turn. The
  code blocks are written after the data blocks, into the memory that these left.
\<close>

theorem write_data_blocks_sequential:
  assumes "data_blocks \<noteq> []" and "data_regions \<noteq> []"
    and "\<forall>db \<in> set data_blocks. readable file_buffer db"
  shows "case write_data_blocks file_buffer data_regions data_blocks mem of
           Inl e \<Rightarrow> e = OutOfSpaceData \<and>
             (\<exists>i<length data_blocks. unat (db_virtual_size (data_blocks ! i))
                 > unat (region_size (hd data_regions)) - space_before data_blocks i)
         | Inr (dbs', mem') \<Rightarrow>
             (\<forall>i<length data_blocks. unat (db_virtual_size (data_blocks ! i))
                 \<le> unat (region_size (hd data_regions)) - space_before data_blocks i)
             \<and> length dbs' = length data_blocks
             \<and> (\<forall>i<length data_blocks. dbs' ! i = (data_blocks ! i)\<lparr>db_final_virtual_address :=
                    virtual_address (hd data_regions) + int (space_before data_blocks i)\<rparr>)
             \<and> (\<forall>i<length data_blocks. read_memory mem'
                    (virtual_address (hd data_regions) + int (space_before data_blocks i))
                    (unat (db_virtual_size (data_blocks ! i)))
                  = block_image file_buffer (data_blocks ! i))
             \<and> chum_write z file_buffer uninitialized data_blocks code_blocks data_regions
                   code_regions mem
                 = (case write_code_blocks z file_buffer uninitialized dbs' code_blocks
                           code_regions mem' of
                      Inl e \<Rightarrow> Inl e
                    | Inr (cbs', mem'', pending) \<Rightarrow> Inr (dbs', cbs', mem'', pending))"
proof -
  have "(0::u32) \<le> region_size (hd data_regions)" by simp
  from write_data_blocks_loop_result [OF this assms(3), of mem]
  show ?thesis using assms(1,2)
    by (auto simp: write_data_blocks_def chum_write_def split: sum.splits)
qed

theorem write_data_blocks_sequential_witness:
  "readable [1, 2, 3, 4, 5] (data_example ! 0) \<and> readable [1, 2, 3, 4, 5] (data_example ! 1)
   \<and> (case write_data_blocks [1, 2, 3, 4, 5] data_region_example data_example (\<lambda>a. 0xFF) of
         Inl e \<Rightarrow> False
       | Inr (dbs', mem') \<Rightarrow>
           map db_final_virtual_address dbs' = [0x5000, 0x5004]
           \<and> read_memory mem' 0x5000 4 = [2, 3, 0, 0]
           \<and> read_memory mem' 0x5004 3 = [0, 0, 0])"
proof -
  have rd: "\<forall>db \<in> set data_example. readable [1, 2, 3, 4, 5] db"
    by (simp add: data_example_def readable_def)
  have ne: "data_example \<noteq> []" "data_region_example \<noteq> []"
    by (simp_all add: data_example_def data_region_example_def)
  have run: "\<exists>dbs' mem'. write_data_blocks [1, 2, 3, 4, 5] data_region_example data_example
                (\<lambda>a. 0xFF) = Inr (dbs', mem')"
    by (simp add: write_data_blocks_def data_example_def data_region_example_def
          file_bytes_def Let_def)
  then obtain dbs' mem' where r: "write_data_blocks [1, 2, 3, 4, 5] data_region_example
      data_example (\<lambda>a. 0xFF) = Inr (dbs', mem')" by blast
  from write_data_blocks_sequential [OF ne rd, where mem = "\<lambda>a. 0xFF"] r
  have len: "length dbs' = 2"
    and fin: "\<forall>i<2. dbs' ! i = (data_example ! i)\<lparr>db_final_virtual_address :=
                 virtual_address (hd data_region_example) + int (space_before data_example i)\<rparr>"
    and img: "\<forall>i<2. read_memory mem'
                 (virtual_address (hd data_region_example) + int (space_before data_example i))
                 (unat (db_virtual_size (data_example ! i)))
               = block_image [1, 2, 3, 4, 5] (data_example ! i)"
    by (simp_all add: data_example_def)
  from fin have "dbs' ! 0 = (data_example ! 0)\<lparr>db_final_virtual_address := 0x5000\<rparr>"
    and "dbs' ! 1 = (data_example ! 1)\<lparr>db_final_virtual_address := 0x5004\<rparr>"
    by (simp_all add: data_example_def data_region_example_def space_before_def)
  with len have a: "map db_final_virtual_address dbs' = [0x5000, 0x5004]"
    by (intro nth_equalityI) (auto simp: less_Suc_eq numeral_2_eq_2)
  have i0: "(0::nat) < 2" and i1: "(1::nat) < 2" by simp_all
  have rep2: "replicate 2 (0::byte) = [0, 0]" by (simp add: numeral_2_eq_2)
  have rep3: "replicate 3 (0::byte) = [0, 0, 0]" by (simp add: numeral_3_eq_3)
  from img [rule_format, OF i0] have b: "read_memory mem' 0x5000 4 = [2, 3, 0, 0]"
    by (simp add: data_example_def data_region_example_def space_before_def
          block_image_def Let_def rep2)
  from img [rule_format, OF i1] have c: "read_memory mem' 0x5004 3 = [0, 0, 0]"
    by (simp add: data_example_def data_region_example_def space_before_def
          block_image_def Let_def rep3)
  from rd a b c r show ?thesis by (simp add: data_example_def)
qed

subsection \<open>The blocks that parse2 builds\<close>

lemma decode_bounds:
  assumes "ZydisDecoderDecode z bs = Some d"
  shows "1 \<le> insn_length d" and "insn_length d \<le> 15" and "insn_length d \<le> length bs"
  using assms
  by (auto simp: ZydisDecoderDecode_def ZYDIS_MAX_INSTRUCTION_LENGTH_def
           split: option.splits if_splits)

lemma block_instructions_sum:
  "block_instructions z buf pos n = Some ds \<Longrightarrow> sum_list (map insn_length ds) = n"
proof (induction z buf pos n arbitrary: ds rule: block_instructions.induct)
  case (1 z buf pos n)
  show ?case
  proof (cases "n = 0")
    case True
    with "1.prems" show ?thesis by (simp add: block_instructions.simps)
  next
    case False
    with "1.prems" obtain d ds' where
      d: "ZydisDecoderDecode z (drop pos buf) = Some d" and le: "insn_length d \<le> n"
      and rest: "block_instructions z buf (pos + insn_length d) (n - insn_length d) = Some ds'"
      and ds: "ds = d # ds'"
      by (subst (asm) block_instructions.simps) (auto split: option.splits if_splits)
    from "1.IH" [OF False d le rest] have "sum_list (map insn_length ds') = n - insn_length d" .
    with le ds show ?thesis by simp
  qed
qed

lemma block_instructions_append:
  assumes "block_instructions z buf pos n = Some ds"
    and "ZydisDecoderDecode z (drop (pos + n) buf) = Some d"
  shows "block_instructions z buf pos (n + insn_length d) = Some (ds @ [d])"
  using assms
proof (induction z buf pos n arbitrary: ds rule: block_instructions.induct)
  case (1 z buf pos n)
  note len = decode_bounds(1) [OF "1.prems"(2)]
  show ?case
  proof (cases "n = 0")
    case True
    with "1.prems" have ds: "ds = []" by (simp add: block_instructions.simps)
    have "block_instructions z buf (pos + insn_length d) 0 = Some []"
      by (simp add: block_instructions.simps)
    with True ds "1.prems"(2) len show ?thesis
      by (subst block_instructions.simps) simp
  next
    case False
    with "1.prems"(1) obtain e ds' where
      e: "ZydisDecoderDecode z (drop pos buf) = Some e" and le: "insn_length e \<le> n"
      and rest: "block_instructions z buf (pos + insn_length e) (n - insn_length e) = Some ds'"
      and ds: "ds = e # ds'"
      by (subst (asm) block_instructions.simps) (auto split: option.splits if_splits)
    from le "1.prems"(2)
    have "ZydisDecoderDecode z (drop (pos + insn_length e + (n - insn_length e)) buf) = Some d"
      by simp
    from "1.IH" [OF False e le rest this]
    have "block_instructions z buf (pos + insn_length e) (n - insn_length e + insn_length d)
            = Some (ds' @ [d])" .
    moreover from le have "n + insn_length d - insn_length e = n - insn_length e + insn_length d"
      by simp
    ultimately have tail:
      "block_instructions z buf (pos + insn_length e) (n + insn_length d - insn_length e)
         = Some (ds' @ [d])" by (simp only:)
    have "block_instructions z buf pos (n + insn_length d)
            = map_option ((#) e)
                (block_instructions z buf (pos + insn_length e) (n + insn_length d - insn_length e))"
      using e le False by (subst block_instructions.simps) simp
    with tail ds show ?thesis by simp
  qed
qed

lemma block_instructions_single:
  assumes "ZydisDecoderDecode z (drop pos buf) = Some d"
  shows "block_instructions z buf pos (insn_length d) = Some [d]"
  using block_instructions_append [of z buf pos 0 "[]" d] assms
  by (simp add: block_instructions.simps [of z buf pos 0])

lemma unat_add_of_nat:
  fixes w :: u32
  assumes "unat w + k < 2 ^ 32"
  shows "unat (w + word_of_nat k) = unat w + k"
proof -
  from assms have "k < 2 ^ 32" by simp
  then have "unat (word_of_nat k :: u32) = k" by (simp add: unat_of_nat)
  with assms show ?thesis by (simp add: unat_word_ariths)
qed

lemma unat_of_nat_small:
  assumes "k < 2 ^ 32"
  shows "unat (word_of_nat k :: u32) = k"
  using assms by (simp add: unat_of_nat)

lemma block_ok_empty: "block_ok z buf (create_empty_code_block a b)"
  by (simp add: block_ok_def create_empty_code_block_def block_instructions.simps)

lemma block_ok_relative:
  assumes "ZydisDecoderDecode z (drop (unat (cb_file_offset c)) buf) = Some d"
    and "attrib_is_relative d"
  shows "block_ok z buf (c\<lparr>cb_is_relative := True,
           cb_file_size := word_of_nat (insn_length d),
           cb_final_size := word_of_nat (insn_length d + 32)\<rparr>)"
proof -
  note b = decode_bounds [OF assms(1)]
  from b have "unat (word_of_nat (insn_length d) :: u32) = insn_length d"
    and "unat (word_of_nat (insn_length d + 32) :: u32) = insn_length d + 32"
    by (simp_all add: unat_of_nat_small del: of_nat_add)
  with block_instructions_single [OF assms(1)] assms(2) show ?thesis
    by (simp add: block_ok_def del: of_nat_add)
qed

lemma block_ok_append:
  assumes "block_ok z buf c" and "\<not> cb_is_relative c"
    and "ZydisDecoderDecode z (drop (unat (cb_file_offset c) + unat (cb_file_size c)) buf)
           = Some d"
    and "\<not> attrib_is_relative d"
    and "unat (cb_file_offset c) + unat (cb_file_size c) + insn_length d < 2 ^ 32"
  shows "block_ok z buf (c\<lparr>cb_file_size := cb_file_size c + word_of_nat (insn_length d),
           cb_final_size := cb_expected_size c + word_of_nat (insn_length d)\<rparr>)"
proof -
  from assms(1) obtain ds where
    ds: "block_instructions z buf (unat (cb_file_offset c)) (unat (cb_file_size c)) = Some ds"
    and plain: "list_all (\<lambda>d. \<not> attrib_is_relative d) ds"
    and exp: "unat (cb_expected_size c)
              = sum_list (map insn_length ds) + 32 * length (filter attrib_is_relative ds)"
    using assms(2) by (auto simp: block_ok_def split: option.splits)
  from plain have none: "filter attrib_is_relative ds = []"
    by (simp add: list_all_iff filter_empty_conv)
  from block_instructions_sum [OF ds] exp none
  have same: "unat (cb_expected_size c) = unat (cb_file_size c)" by simp
  from assms(5) have small: "unat (cb_file_size c) + insn_length d < 2 ^ 32" by simp
  have fs: "unat (cb_file_size c + word_of_nat (insn_length d))
            = unat (cb_file_size c) + insn_length d"
    using small by (rule unat_add_of_nat)
  have ex: "unat (cb_expected_size c + word_of_nat (insn_length d))
            = unat (cb_file_size c) + insn_length d"
    using small same unat_add_of_nat [of "cb_expected_size c" "insn_length d"] by simp
  from block_instructions_append [OF ds assms(3)] block_instructions_sum [OF ds]
  show ?thesis
    using plain none assms(2,4) fs ex
    by (simp add: block_ok_def)
qed

lemma block_ok_relative_nonempty:
  assumes "block_ok z buf c" and "cb_is_relative c"
  shows "cb_file_size c > 0"
proof (rule ccontr)
  assume "\<not> cb_file_size c > 0"
  then have "cb_file_size c = 0" using word_neq_0_conv by blast
  with assms show False
    by (simp add: block_ok_def block_instructions.simps)
qed

lemma append_decoded_inv:
  assumes inv: "parse_inv z buf fo ioff st"
    and dec: "ZydisDecoderDecode z (drop (unat fo + ioff) buf) = Some d"
    and size: "length buf < 2 ^ 32"
  shows "\<exists>st'. append_decoded bo fo ioff d st = Inr st'
           \<and> parse_inv z buf fo (ioff + insn_length d) st'"
proof -
  obtain cbs cb where st: "st = (cbs, cb)" by (cases st)
  let ?p = "unat fo + ioff"
  let ?here = "create_empty_code_block (bo + word_of_nat ioff) (fo + word_of_nat ioff)"
  note b = decode_bounds [OF dec]
  from b(3) b(1) have room: "?p + insn_length d \<le> length buf" by simp
  with size have small: "?p + insn_length d < 2 ^ 32" by simp
  then have p: "unat (fo + word_of_nat ioff) = ?p"
    using unat_add_of_nat [of fo ioff] by simp
  from inv st have oks: "list_all (block_ok z buf) cbs" and ok: "block_ok z buf cb"
    and pos: "unat (cb_file_offset cb) + unat (cb_file_size cb) = ?p"
    by (simp_all add: parse_inv_def)
  have here_ok: "block_ok z buf ?here" by (rule block_ok_empty)
  have here_fs: "cb_file_size ?here = 0" and here_fo: "unat (cb_file_offset ?here) = ?p"
    and here_plain: "\<not> cb_is_relative ?here"
    using p by (simp_all add: create_empty_code_block_def)
  \<comment> \<open>the block that takes the instruction, after a relative block has been closed\<close>
  define cbs1 where "cbs1 = (if cb_is_relative cb then cbs @ [cb] else cbs)"
  define cb1 where "cb1 = (if cb_is_relative cb then ?here else cb)"
  have oks1: "list_all (block_ok z buf) cbs1" and ok1: "block_ok z buf cb1"
    and plain1: "\<not> cb_is_relative cb1"
    and pos1: "unat (cb_file_offset cb1) + unat (cb_file_size cb1) = ?p"
    using oks ok pos here_ok here_fs here_fo here_plain
    by (auto simp: cbs1_def cb1_def)
  have no_assert: "\<not> (cb_is_relative cb \<and> \<not> cb_file_size cb > 0)"
    using block_ok_relative_nonempty [OF ok] by blast
  show ?thesis
  proof (cases "attrib_is_relative d")
    case True
    define cbs2 where "cbs2 = (if cb_file_size cb1 > 0 then cbs1 @ [cb1] else cbs1)"
    define cb2 where "cb2 = (if cb_file_size cb1 > 0 then ?here else cb1)"
    have z1: "\<not> cb_file_size cb1 > 0 \<Longrightarrow> cb_file_size cb1 = 0"
      using word_neq_0_conv by blast
    have oks2: "list_all (block_ok z buf) cbs2"
      using oks1 ok1 by (simp add: cbs2_def)
    have fs2: "cb_file_size cb2 = 0"
      using here_fs z1 by (simp add: cb2_def)
    have fo2: "unat (cb_file_offset cb2) = ?p"
      using here_fo pos1 z1 by (auto simp: cb2_def)
    let ?cb' = "cb2\<lparr>cb_is_relative := True, cb_file_size := word_of_nat (insn_length d),
                  cb_final_size := word_of_nat (insn_length d + 32)\<rparr>"
    have eq: "append_decoded bo fo ioff d st = Inr (cbs2, ?cb')"
      using no_assert True fs2
      by (simp add: append_decoded_def st Let_def cbs1_def cb1_def cbs2_def cb2_def
               split: if_splits)
    have ok': "block_ok z buf ?cb'"
      using block_ok_relative [where z = z and buf = buf and c = cb2 and d = d] dec fo2 True
      by simp
    from b have "unat (word_of_nat (insn_length d) :: u32) = insn_length d"
      by (simp add: unat_of_nat_small)
    with fo2 have pos': "unat (cb_file_offset ?cb') + unat (cb_file_size ?cb')
                          = unat fo + (ioff + insn_length d)"
      by simp
    from eq oks2 ok' pos' show ?thesis by (simp add: parse_inv_def)
  next
    case False
    let ?cb' = "cb1\<lparr>cb_file_size := cb_file_size cb1 + word_of_nat (insn_length d),
                  cb_final_size := cb_expected_size cb1 + word_of_nat (insn_length d)\<rparr>"
    have eq: "append_decoded bo fo ioff d st = Inr (cbs1, ?cb')"
      using no_assert False plain1
      by (simp add: append_decoded_def st Let_def cbs1_def cb1_def split: if_splits)
    have ok': "block_ok z buf ?cb'"
      using block_ok_append [OF ok1 plain1 _ False] dec pos1 small by simp
    have "unat (cb_file_size cb1) + insn_length d < 2 ^ 32" using pos1 small by simp
    then have "unat (cb_file_size cb1 + word_of_nat (insn_length d))
               = unat (cb_file_size cb1) + insn_length d"
      by (rule unat_add_of_nat)
    with pos1 have pos': "unat (cb_file_offset ?cb') + unat (cb_file_size ?cb')
                          = unat fo + (ioff + insn_length d)"
      by simp
    from eq oks1 ok' pos' show ?thesis by (simp add: parse_inv_def)
  qed
qed

lemma parse_inv_blocks:
  "parse_inv z buf fo ioff st \<Longrightarrow> list_all (block_ok z buf) (fst st @ [snd st])"
  by (simp add: parse_inv_def)

lemma decode_block_ok:
  assumes "parse_inv z buf fo ioff st" and "length buf < 2 ^ 32"
  shows "list_all (block_ok z buf) (snd (decode_block z buf bo fo ioff st))"
  using assms
proof (induction z buf bo fo ioff st rule: decode_block.induct)
  case (1 z buf bo fo ioff st)
  show ?case
  proof (cases "ZydisDecoderDecode z (drop (unat fo + ioff) buf)")
    case None
    with parse_inv_blocks [OF "1.prems"(1)] show ?thesis by simp
  next
    case (Some d)
    from append_decoded_inv [OF "1.prems"(1) Some "1.prems"(2), of bo] obtain st' where
      st': "append_decoded bo fo ioff d st = Inr st'"
      and inv': "parse_inv z buf fo (ioff + insn_length d) st'" by blast
    show ?thesis
    proof (cases "is_exit_point d")
      case True
      with Some st' parse_inv_blocks [OF inv'] show ?thesis by simp
    next
      case False
      from "1.IH" [OF Some st' False inv' "1.prems"(2)] Some st' False
      show ?thesis by simp
    qed
  qed
qed

lemma process_queue_loop_ok:
  assumes "list_all (block_ok z buf) cbs" and "length buf < 2 ^ 32"
  shows "list_all (block_ok z buf) (snd (process_queue_loop z secs buf queue cbs))"
  using assms
proof (induction queue arbitrary: cbs)
  case Nil
  then show ?case by simp
next
  case (Cons r queue)
  let ?fo = "rva_to_file_offset secs r"
  have "parse_inv z buf ?fo 0 (cbs, create_empty_code_block r ?fo)"
    using Cons.prems(1) block_ok_empty
    by (simp add: parse_inv_def create_empty_code_block_def)
  from decode_block_ok [OF this Cons.prems(2), of r]
  have ok: "list_all (block_ok z buf)
              (snd (decode_block z buf r ?fo 0 (cbs, create_empty_code_block r ?fo)))" .
  show ?case
  proof (cases "decode_block z buf r ?fo 0 (cbs, create_empty_code_block r ?fo)")
    case (Pair status cbs')
    with ok have ok': "list_all (block_ok z buf) cbs'" by simp
    show ?thesis
    proof (cases status)
      case None
      with Pair Cons.IH [OF ok' Cons.prems(2)] show ?thesis
        by (simp add: already_disassembled_def)
    next
      case (Some e)
      with Pair ok' show ?thesis by (simp add: already_disassembled_def)
    qed
  qed
qed

lemma parse2_blocks_ok:
  assumes "length buf < 2 ^ 32"
  shows "list_all (block_ok z buf) (snd (parse2 z secs buf seeds))"
  unfolding parse2_def by (rule process_queue_loop_ok [OF _ assms]) simp


lemma block_ok_D:
  assumes "block_ok z buf cb"
  shows "\<exists>ds. block_instructions z buf (unat (cb_file_offset cb)) (unat (cb_file_size cb))
               = Some ds
          \<and> (cb_is_relative cb \<longrightarrow> length ds = 1 \<and> list_all attrib_is_relative ds)
          \<and> (\<not> cb_is_relative cb \<longrightarrow> list_all (\<lambda>d. \<not> attrib_is_relative d) ds)
          \<and> unat (cb_expected_size cb)
              = sum_list (map insn_length ds) + 32 * length (filter attrib_is_relative ds)"
  using assms by (auto simp: block_ok_def split: option.splits if_splits)



subsection \<open>Decode failures\<close>




subsection \<open>Forward targets\<close>

text \<open>
  C3. The claim: after each code block is emitted, the pending patches whose target
  lies in it are drained and patched, so that the pending set is empty after the
  last block. In \<open>jz_example\<close> the JZ at 0x1000 targets 0x1003, inside the second
  block, which is not relative. The drain loop stands behind the \<open>continue\<close> of the
  blocks that are not relative, so it does not run after the second block: the
  patch record is still pending at the end, and the JZ keeps the pessimistic
  immediate 34 where the distance to its target is 1.
\<close>

theorem write_code_blocks_forward_target_left_pending:
  "parse2 tiny_x86 [text_section] jz_example [0x1000] = (None, jz_blocks)
   \<and> (case write_code_blocks tiny_x86 jz_example (\<lambda>i. 0xCC) [] jz_blocks
              code_region_example (\<lambda>a. 0) of
         Inl e \<Rightarrow> False
       | Inr (cbs, mem, pending) \<Rightarrow>
           map cb_final_virtual_address cbs = [0x10000, 0x10002]
           \<and> read_memory mem 0x10000 4 = [0x74, 34, 0x90, 0xC3]
           \<and> pending = [\<lparr>instruction_address = 0x10000, ft_virtual_offset = 0x1003,
                           patch_offset = 1, patch_length = 1, instruction_length = 2\<rparr>])"
  by code_simp

subsection \<open>The pessimistic delta\<close>

lemma forward_delta_first_closed:
  "forward_delta cbs t acc =
     (case first_closed cbs t of
        None \<Rightarrow> None
      | Some k \<Rightarrow> Some (acc + sum_list (map (\<lambda>cb. uint (cb_expected_size cb))
                                      (take (Suc k) cbs))))"
  by (induction cbs arbitrary: acc) (auto split: option.splits)

lemma rva_to_code_block_idx_nth:
  "rva_to_code_block cbs rva = map_option (nth cbs) (rva_to_code_block_idx cbs rva)"
  by (induction cbs) (auto simp: option.map_comp comp_def)

lemma rva_to_code_block_idx_Some:
  assumes "rva_to_code_block_idx cbs rva = Some j"
  shows "j < length cbs
       \<and> \<not> (rva < cb_virtual_offset (cbs ! j)
              \<or> rva \<ge> cb_virtual_offset (cbs ! j) + cb_file_size (cbs ! j))
       \<and> (\<forall>i<j. rva < cb_virtual_offset (cbs ! i)
                  \<or> rva \<ge> cb_virtual_offset (cbs ! i) + cb_file_size (cbs ! i))"
  using assms
proof (induction cbs arbitrary: j)
  case Nil
  then show ?case by simp
next
  case (Cons cb cbs)
  show ?case
  proof (cases "rva < cb_virtual_offset cb \<or> rva \<ge> cb_virtual_offset cb + cb_file_size cb")
    case True
    with Cons.prems obtain j' where j': "rva_to_code_block_idx cbs rva = Some j'" "j = Suc j'"
      by auto
    from Cons.IH [OF j'(1)] True j'(2) show ?thesis
      by (auto simp: less_Suc_eq_0_disj)
  next
    case False
    with Cons.prems have "j = 0" by auto
    with False show ?thesis by simp
  qed
qed

lemma closed_range_cases:
  "in_closed_range cb rva \<longleftrightarrow>
     \<not> (rva < cb_virtual_offset cb \<or> rva \<ge> cb_virtual_offset cb + cb_file_size cb)
     \<or> ends_at cb rva"
  by (auto simp: in_closed_range_def ends_at_def)

lemma first_closed_Some_iff:
  "first_closed cbs rva = Some k \<longleftrightarrow>
     k < length cbs \<and> in_closed_range (cbs ! k) rva \<and> (\<forall>i<k. \<not> in_closed_range (cbs ! i) rva)"
proof (induction cbs arbitrary: k)
  case Nil
  then show ?case by simp
next
  case (Cons cb cbs)
  show ?case
  proof (cases "in_closed_range cb rva")
    case True
    then have "first_closed (cb # cbs) rva = Some 0" by (simp add: in_closed_range_def)
    moreover have "(k < length (cb # cbs) \<and> in_closed_range ((cb # cbs) ! k) rva
        \<and> (\<forall>i<k. \<not> in_closed_range ((cb # cbs) ! i) rva)) \<longleftrightarrow> k = 0"
      using True by (cases k) auto
    ultimately show ?thesis by auto
  next
    case False
    then have eq: "first_closed (cb # cbs) rva = map_option Suc (first_closed cbs rva)"
      by (simp add: in_closed_range_def)
    show ?thesis
    proof (cases k)
      case 0
      with False eq show ?thesis by auto
    next
      case (Suc n)
      with eq Cons.IH [of n] False show ?thesis
        by (auto simp: less_Suc_eq_0_disj)
    qed
  qed
qed

lemma first_closed_None:
  assumes "\<forall>cb \<in> set cbs. \<not> in_closed_range cb rva"
  shows "first_closed cbs rva = None"
  using assms by (induction cbs) (auto simp: in_closed_range_def)

lemma backward_target_None:
  assumes "\<forall>cb \<in> set cbs. \<not> in_closed_range cb rva"
  shows "backward_target cbs rva = None"
  using assms by (induction cbs) (auto simp: in_closed_range_def)

lemma forward_stop_bounds:
  assumes "i \<le> j"
  shows "i \<le> forward_stop cbs i j rva \<and> forward_stop cbs i j rva \<le> j
       \<and> (forward_stop cbs i j rva = j \<or> ends_at (cbs ! forward_stop cbs i j rva) rva)
       \<and> (\<forall>k. i \<le> k \<and> k < forward_stop cbs i j rva \<longrightarrow> \<not> ends_at (cbs ! k) rva)"
proof (cases "find (\<lambda>k. ends_at (cbs ! k) rva) [i..<j]")
  case None
  then have "\<forall>k. i \<le> k \<and> k < j \<longrightarrow> \<not> ends_at (cbs ! k) rva"
    by (auto simp: find_None_iff)
  with None assms show ?thesis by (simp add: forward_stop_def)
next
  case (Some k)
  then obtain n where n: "n < length [i..<j]" "ends_at (cbs ! ([i..<j] ! n)) rva"
    "k = [i..<j] ! n" "\<forall>m<n. \<not> ends_at (cbs ! ([i..<j] ! m)) rva"
    unfolding find_Some_iff by blast
  from n(1) have nj: "i + n < j" by simp
  then have k: "k = i + n" using n(3) by simp
  have before: "\<not> ends_at (cbs ! l) rva" if "i \<le> l" "l < k" for l
  proof -
    from that k have "l - i < n" by simp
    with n(4) have "\<not> ends_at (cbs ! ([i..<j] ! (l - i))) rva" by blast
    moreover from that k nj have "[i..<j] ! (l - i) = l" by simp
    ultimately show ?thesis by simp
  qed
  from Some have "forward_stop cbs i j rva = k" by (simp add: forward_stop_def)
  with k nj n(2) before show ?thesis by auto
qed

lemma first_closed_forward_stop:
  assumes idx: "rva_to_code_block_idx cbs rva = Some j" and le: "i \<le> j"
  shows "first_closed (drop i cbs) rva = Some (forward_stop cbs i j rva - i)"
proof -
  note j = rva_to_code_block_idx_Some [OF idx]
  let ?k = "forward_stop cbs i j rva"
  note b = forward_stop_bounds [OF le, of cbs rva]
  from b j have klen: "?k - i < length (drop i cbs)" by auto
  from b have nth: "drop i cbs ! (?k - i) = cbs ! ?k"
    using j by simp
  have closed: "in_closed_range (cbs ! ?k) rva"
    using b j by (auto simp: closed_range_cases)
  have none: "\<not> in_closed_range (drop i cbs ! n) rva" if "n < ?k - i" for n
  proof -
    from that b j have "i + n < j" "i + n < length cbs" "i + n < ?k" by auto
    then have "drop i cbs ! n = cbs ! (i + n)" by simp
    moreover from \<open>i + n < j\<close> j have "rva < cb_virtual_offset (cbs ! (i + n))
        \<or> rva \<ge> cb_virtual_offset (cbs ! (i + n)) + cb_file_size (cbs ! (i + n))" by blast
    moreover from b \<open>i + n < ?k\<close> have "\<not> ends_at (cbs ! (i + n)) rva" by simp
    ultimately show ?thesis by (simp add: closed_range_cases)
  qed
  from klen nth closed none show ?thesis
    unfolding first_closed_Some_iff by simp
qed


text \<open>
  C4, as the claim states it, fails: for JZ 0x1002 at 0x1000 the target is the first
  byte of the second block, which has not been emitted, and the delta is the
  expected size of the first block alone (34), not the sum up to and including the
  target block (36): the forward search tests the closed range of each block, and
  the target is the end of the first. For the same reason the target 0x1004, which
  lies in no block, does not make the computation fail.
\<close>

theorem forward_delta_stops_before_target_block:
  "snd (parse2 tiny_x86 [text_section] [0x74, 0x00, 0x90, 0xC3] [0x1000]) = jz_blocks
   \<and> rva_to_code_block jz_blocks 0x1002 = Some (jz_blocks ! 1)
   \<and> calculate_adjusted_target_delta [] jz_blocks 0x10000 0 0x1002 0 False
       = Inr (Some (34, False))
   \<and> sum_list (map (\<lambda>cb. uint (cb_expected_size cb)) (take 2 jz_blocks)) = 36
   \<and> rva_to_code_block jz_blocks 0x1004 = None
   \<and> calculate_adjusted_target_delta [] jz_blocks 0x10000 0 0x1004 0 False
       = Inr (Some (36, False))"
  by code_simp

text \<open>
  C4, amended. Let the target lie in no data block, not below the current block,
  and in a block \<open>j\<close> that has not yet been emitted (\<open>j\<close> is the block that
  \<open>rva_to_code_block\<close> finds, and it is not before the current block in the
  vector). Then the delta is the sum of \<open>expected_size\<close> over the blocks from the
  current one up to and including block \<open>j\<close>, or, when a block from the current
  one on and before \<open>j\<close> ends exactly at the target, up to and including the first
  such block. If the target lies in no data block and in the closed range of no
  code block, the computation fails. The expected size of a block that \<open>parse2\<close>
  built is the sum of the lengths of its instructions plus 32 for each relative
  instruction.
\<close>

theorem calculate_forward_delta:
  assumes "cb_is_relative (code_blocks ! current_cb_idx)"
    and "data_target data_blocks target = None"
  shows "(rva_to_code_block_idx code_blocks target = Some j \<and> current_cb_idx \<le> j
          \<and> \<not> target < cb_virtual_offset (code_blocks ! current_cb_idx)
         \<longrightarrow> calculate_adjusted_target_delta data_blocks code_blocks here current_cb_idx
               target 0 False
             = Inr (Some (sum_list (map (\<lambda>cb. uint (cb_expected_size cb))
                            (blocks_from_to code_blocks current_cb_idx
                               (forward_stop code_blocks current_cb_idx j target))), False))
           \<and> current_cb_idx \<le> forward_stop code_blocks current_cb_idx j target
           \<and> forward_stop code_blocks current_cb_idx j target \<le> j
           \<and> (forward_stop code_blocks current_cb_idx j target = j
                \<or> ends_at (code_blocks ! forward_stop code_blocks current_cb_idx j target)
                     target))
       \<and> ((\<forall>cb \<in> set code_blocks. \<not> in_closed_range cb target)
          \<longrightarrow> calculate_adjusted_target_delta data_blocks code_blocks here current_cb_idx
                target 0 False = Inr None)
       \<and> (length file_buffer < 2 ^ 32
            \<and> cb \<in> set (snd (parse2 z sections file_buffer begin_addresses))
          \<longrightarrow> (\<exists>ds. block_instructions z file_buffer (unat (cb_file_offset cb))
                       (unat (cb_file_size cb)) = Some ds
                    \<and> unat (cb_expected_size cb)
                        = sum_list (map insn_length ds)
                          + 32 * length (filter attrib_is_relative ds)))"
proof -
  let ?calc = "calculate_adjusted_target_delta data_blocks code_blocks here current_cb_idx
                 target 0 False"
  let ?k = "forward_stop code_blocks current_cb_idx j target"
  have a: "?calc = Inr (Some (sum_list (map (\<lambda>cb. uint (cb_expected_size cb))
                            (blocks_from_to code_blocks current_cb_idx ?k)), False))
           \<and> current_cb_idx \<le> ?k \<and> ?k \<le> j
           \<and> (?k = j \<or> ends_at (code_blocks ! ?k) target)"
    if idx: "rva_to_code_block_idx code_blocks target = Some j" and le: "current_cb_idx \<le> j"
      and fwd: "\<not> target < cb_virtual_offset (code_blocks ! current_cb_idx)"
  proof -
    from first_closed_forward_stop [OF idx le]
    have "forward_delta (drop current_cb_idx code_blocks) target 0
            = Some (sum_list (map (\<lambda>cb. uint (cb_expected_size cb))
                      (blocks_from_to code_blocks current_cb_idx ?k)))"
      by (simp add: forward_delta_first_closed blocks_from_to_def)
    with assms fwd have "?calc = Inr (Some (sum_list (map (\<lambda>cb. uint (cb_expected_size cb))
                            (blocks_from_to code_blocks current_cb_idx ?k)), False))"
      by (simp add: calculate_adjusted_target_delta_def Let_def)
    with forward_stop_bounds [OF le, of code_blocks target] show ?thesis by simp
  qed
  have b: "?calc = Inr None" if none: "\<forall>cb \<in> set code_blocks. \<not> in_closed_range cb target"
  proof (cases "target < cb_virtual_offset (code_blocks ! current_cb_idx)")
    case True
    have "\<forall>cb \<in> set (rev (take (current_cb_idx + 1) code_blocks)). \<not> in_closed_range cb target"
      using none by (auto dest: in_set_takeD)
    from backward_target_None [OF this] assms True show ?thesis
      by (simp add: calculate_adjusted_target_delta_def Let_def)
  next
    case False
    have "\<forall>cb \<in> set (drop current_cb_idx code_blocks). \<not> in_closed_range cb target"
      using none by (auto dest: in_set_dropD)
    from first_closed_None [OF this] assms False show ?thesis
      by (simp add: calculate_adjusted_target_delta_def Let_def forward_delta_first_closed)
  qed
  have c: "\<exists>ds. block_instructions z file_buffer (unat (cb_file_offset cb))
                       (unat (cb_file_size cb)) = Some ds
                    \<and> unat (cb_expected_size cb)
                        = sum_list (map insn_length ds)
                          + 32 * length (filter attrib_is_relative ds)"
    if "length file_buffer < 2 ^ 32"
      and "cb \<in> set (snd (parse2 z sections file_buffer begin_addresses))"
  proof -
    from parse2_blocks_ok [OF that(1)] that(2) have "block_ok z file_buffer cb"
      by (simp add: list_all_iff)
    from block_ok_D [OF this] show ?thesis by blast
  qed
  from a b c show ?thesis by blast
qed

theorem calculate_forward_delta_witness:
  "cb_is_relative (jz_blocks ! 0) \<and> data_target [] 0x1003 = None
   \<and> rva_to_code_block_idx jz_blocks 0x1003 = Some 1
   \<and> \<not> 0x1003 < cb_virtual_offset (jz_blocks ! 0)
   \<and> forward_stop jz_blocks 0 1 0x1003 = 1
   \<and> calculate_adjusted_target_delta [] jz_blocks 0x10000 0 0x1003 0 False
       = Inr (Some (36, False))
   \<and> rva_to_code_block_idx jz_blocks 0x1002 = Some 1
   \<and> forward_stop jz_blocks 0 1 0x1002 = 0
   \<and> ends_at (jz_blocks ! 0) 0x1002
   \<and> calculate_adjusted_target_delta [] jz_blocks 0x10000 0 0x1002 0 False
       = Inr (Some (34, False))
   \<and> \<not> in_closed_range (jz_blocks ! 0) 0x2000 \<and> \<not> in_closed_range (jz_blocks ! 1) 0x2000
   \<and> calculate_adjusted_target_delta [] jz_blocks 0x10000 0 0x2000 0 False = Inr None"
proof -
  have rel: "cb_is_relative (jz_blocks ! 0)" by (simp add: jz_blocks_def)
  have nd: "data_target [] t = None" for t by simp
  have i3: "rva_to_code_block_idx jz_blocks 0x1003 = Some 1"
    and i2: "rva_to_code_block_idx jz_blocks 0x1002 = Some 1"
    by (simp_all add: jz_blocks_def)
  have f3: "\<not> 0x1003 < cb_virtual_offset (jz_blocks ! 0)"
    and f2: "\<not> 0x1002 < cb_virtual_offset (jz_blocks ! 0)"
    by (simp_all add: jz_blocks_def)
  have s3: "forward_stop jz_blocks 0 1 0x1003 = 1"
    and s2: "forward_stop jz_blocks 0 1 0x1002 = 0"
    and e2: "ends_at (jz_blocks ! 0) 0x1002"
    by (simp_all add: forward_stop_def ends_at_def jz_blocks_def)
  have sum3: "sum_list (map (\<lambda>cb. uint (cb_expected_size cb)) (blocks_from_to jz_blocks 0 1)) = 36"
    and sum2: "sum_list (map (\<lambda>cb. uint (cb_expected_size cb)) (blocks_from_to jz_blocks 0 0)) = 34"
    by (simp_all add: blocks_from_to_def jz_blocks_def)
  have out: "\<not> in_closed_range (jz_blocks ! 0) 0x2000" "\<not> in_closed_range (jz_blocks ! 1) 0x2000"
    by (simp_all add: in_closed_range_def jz_blocks_def)
  then have all_out: "\<forall>cb \<in> set jz_blocks. \<not> in_closed_range cb 0x2000"
    by (simp add: jz_blocks_def)
  note T3 = calculate_forward_delta [OF rel nd, where target = "0x1003" and j = 1
      and here = "0x10000"]
  note T2 = calculate_forward_delta [OF rel nd, where target = "0x1002" and j = 1
      and here = "0x10000"]
  note T0 = calculate_forward_delta [OF rel nd, where target = "0x2000" and here = "0x10000"]
  from T3 i3 f3 s3 sum3
  have r3: "calculate_adjusted_target_delta [] jz_blocks 0x10000 0 0x1003 0 False
       = Inr (Some (36, False))" by simp
  from T2 i2 f2 s2 sum2
  have r2: "calculate_adjusted_target_delta [] jz_blocks 0x10000 0 0x1002 0 False
       = Inr (Some (34, False))" by simp
  from T0 all_out
  have r0: "calculate_adjusted_target_delta [] jz_blocks 0x10000 0 0x2000 0 False = Inr None"
    by blast
  from rel nd i3 f3 s3 r3 i2 s2 e2 r2 out r0 show ?thesis by simp
qed


subsection \<open>Expected and final size\<close>

lemma write_cb_Some:
  assumes "write_cb w mem buffer cb = Some (w', mem', cb')"
  shows "cb_final_size cb' = word_of_nat (length buffer)"
  using assms by (auto simp: write_cb_def Let_def split: if_splits)

lemma force_write_Some:
  assumes "force_write w mem buffer cb = Some r"
  shows "write_cb w mem buffer cb = Some r"
  using assms by (auto simp: force_write.simps advance_def split: option.splits)

lemma force_write_final_size:
  assumes "force_write w mem buffer cb = Some (w', mem', cb')"
  shows "cb_final_size cb' = word_of_nat (length buffer)"
  using write_cb_Some [OF force_write_Some [OF assms]] .

lemma reencode_length:
  assumes "reencode_relative_branch z d delta capacity = Inr (Some r)"
  shows "length (new_bytes r) \<le> capacity"
  using assms
  by (auto simp: reencode_relative_branch_def ZydisEncoderEncodeInstruction_def Let_def
           split: if_splits option.splits prod.splits)

lemma fix_relative_instruction_length:
  assumes "fix_relative_instruction z buf u cb d here tvo delta fr fts = Inr (bytes, fts')"
    and "insn_length d \<le> 15"
  shows "length bytes \<le> 15"
proof (cases "attrib_has_modrm d")
  case True
  show ?thesis
  proof (cases fr)
    case fr: True
    with True assms(1) obtain xs where "bytes = take (insn_length d) xs"
      by (auto simp: fix_relative_instruction_def Let_def split: if_splits option.splits)
    then have "length bytes \<le> insn_length d" by simp
    with assms(2) show ?thesis by simp
  next
    case fr: False
    with True assms(1) have "bytes = map u [0..<ZYDIS_MAX_INSTRUCTION_LENGTH]"
      by (auto simp: fix_relative_instruction_def Let_def split: if_splits)
    then show ?thesis by (simp add: ZYDIS_MAX_INSTRUCTION_LENGTH_def)
  qed
next
  case False
  with assms(1) obtain r where
    "reencode_relative_branch z d delta ZYDIS_MAX_INSTRUCTION_LENGTH = Inr (Some r)"
    and "bytes = new_bytes r"
    by (auto simp: fix_relative_instruction_def Let_def split: if_splits sum.splits option.splits)
  with reencode_length [of z d delta ZYDIS_MAX_INSTRUCTION_LENGTH r] show ?thesis
    by (simp add: ZYDIS_MAX_INSTRUCTION_LENGTH_def)
qed

lemma write_plain_block_Inr:
  assumes "write_plain_block buf i st = Inr st'"
  shows "\<exists>cb'. es_code_blocks st' = (es_code_blocks st)[i := cb']
           \<and> cb_final_size cb' = cb_file_size (es_code_blocks st ! i)"
proof -
  let ?cb = "es_code_blocks st ! i"
  from assms obtain bytes w' mem' cb' where
    fb: "file_bytes buf (unat (cb_file_offset ?cb)) (unat (cb_file_size ?cb)) = Some bytes"
    and fw: "force_write (es_writer st) (es_memory st) bytes ?cb = Some (w', mem', cb')"
    and st': "es_code_blocks st' = (es_code_blocks st)[i := cb']"
    by (auto simp: write_plain_block_def Let_def split: option.splits)
  from fb have "length bytes = unat (cb_file_size ?cb)"
    by (auto simp: file_bytes_def split: if_splits)
  with force_write_final_size [OF fw] have "cb_final_size cb' = cb_file_size ?cb" by simp
  with st' show ?thesis by blast
qed

lemma write_relative_block_Inr:
  assumes "write_relative_block z buf u dbs i st = Inr st'"
  shows "\<exists>cb'. es_code_blocks st' = (es_code_blocks st)[i := cb']
           \<and> unat (cb_final_size cb') \<le> 15"
proof -
  let ?cb = "es_code_blocks st ! i"
  let ?window = "take (unat (cb_file_size ?cb)) (drop (unat (cb_file_offset ?cb)) buf)"
  note defs = write_relative_block_def Let_def
  from assms obtain d where d: "ZydisDecoderDecode z ?window = Some d"
    by (cases "ZydisDecoderDecode z ?window") (simp_all add: defs)
  from assms d have rel: "attrib_is_relative d"
    by (cases "attrib_is_relative d") (simp_all add: defs)
  from assms d rel obtain req where req: "ToEncoderRequest z d = Some req"
    by (cases "ToEncoderRequest z d") (simp_all add: defs)
  from assms d rel req obtain v where
    v: "get_instruction_target_delta (req_operands req) = Some v"
    by (cases "get_instruction_target_delta (req_operands req)") (simp_all add: defs)
  let ?tvo = "cb_virtual_offset ?cb + word_of_nat (insn_length d) + word_of_int v"
  let ?here = "current_write_address (es_writer st)"
  let ?calc = "calculate_adjusted_target_delta dbs (es_code_blocks st) ?here i ?tvo 0 False"
  from assms d rel req v obtain res where c0: "?calc = Inr (Some res)"
  proof (cases ?calc)
    case (Inl e)
    with assms d rel req v show ?thesis by (simp add: defs)
  next
    case (Inr opt)
    with assms d rel req v that show ?thesis by (cases opt) (simp_all add: defs)
  qed
  obtain delta fr where res: "res = (delta, fr)" by (cases res)
  note c = c0 [unfolded res]
  let ?fix = "fix_relative_instruction z buf u ?cb d ?here ?tvo delta fr (es_forward_targets st)"
  from assms d rel req v c obtain out where fx0: "?fix = Inr out"
    by (cases ?fix) (simp_all add: defs)
  obtain bytes fts where out: "out = (bytes, fts)" by (cases out)
  note fx = fx0 [unfolded out]
  let ?fw = "force_write (es_writer st) (es_memory st) bytes ?cb"
  from assms d rel req v c fx obtain wr where fw0: "?fw = Some wr"
    by (cases ?fw) (simp_all add: defs)
  obtain w' mem' cb' where wr: "wr = (w', mem', cb')" by (cases wr)
  note fw = fw0 [unfolded wr]
  from assms d rel req v c fx fw have st': "es_code_blocks st' = (es_code_blocks st)[i := cb']"
    by (cases "drain_forward_targets cb' fts mem'") (auto simp: defs)
  from decode_bounds(2) [OF d] have "insn_length d \<le> 15" .
  from fix_relative_instruction_length [OF fx this] have len: "length bytes \<le> 15" .
  then have "unat (word_of_nat (length bytes) :: u32) = length bytes"
    by (simp add: unat_of_nat)
  with force_write_final_size [OF fw] len
  have "unat (cb_final_size cb') \<le> 15" by simp
  with st' show ?thesis by blast
qed

lemma block_ok_bound:
  assumes "block_ok z buf cb"
  shows "if cb_is_relative cb then 15 \<le> unat (cb_expected_size cb)
         else cb_expected_size cb = cb_file_size cb"
proof -
  from block_ok_D [OF assms] obtain ds where
    ds: "block_instructions z buf (unat (cb_file_offset cb)) (unat (cb_file_size cb)) = Some ds"
    and rel: "cb_is_relative cb \<longrightarrow> length ds = 1 \<and> list_all attrib_is_relative ds"
    and plain: "\<not> cb_is_relative cb \<longrightarrow> list_all (\<lambda>d. \<not> attrib_is_relative d) ds"
    and exp: "unat (cb_expected_size cb)
              = sum_list (map insn_length ds) + 32 * length (filter attrib_is_relative ds)"
    by blast
  show ?thesis
  proof (cases "cb_is_relative cb")
    case True
    with rel obtain d where "ds = [d]" "attrib_is_relative d" by (cases ds) auto
    with exp True show ?thesis by simp
  next
    case False
    with plain have "filter attrib_is_relative ds = []"
      by (simp add: list_all_iff filter_empty_conv)
    with exp block_instructions_sum [OF ds]
    have "unat (cb_expected_size cb) = unat (cb_file_size cb)" by simp
    then have "cb_expected_size cb = cb_file_size cb" by (simp add: word_unat_eq_iff)
    with False show ?thesis by simp
  qed
qed

lemma write_code_block_bound:
  assumes "write_code_block z buf u dbs i st = Inr st'"
    and "block_ok z buf (es_code_blocks st ! i)"
  shows "\<exists>cb'. es_code_blocks st' = (es_code_blocks st)[i := cb']
           \<and> cb_final_size cb' \<le> cb_expected_size (es_code_blocks st ! i)"
proof (cases "cb_is_relative (es_code_blocks st ! i)")
  case True
  with assms(1) have "write_relative_block z buf u dbs i st = Inr st'"
    by (simp add: write_code_block_def)
  from write_relative_block_Inr [OF this] obtain cb' where
    cb': "es_code_blocks st' = (es_code_blocks st)[i := cb']" "unat (cb_final_size cb') \<le> 15"
    by blast
  from block_ok_bound [OF assms(2)] True
  have "15 \<le> unat (cb_expected_size (es_code_blocks st ! i))" by simp
  with cb'(2) have "cb_final_size cb' \<le> cb_expected_size (es_code_blocks st ! i)"
    by (simp add: word_le_nat_alt)
  with cb'(1) show ?thesis by blast
next
  case False
  with assms(1) have "write_plain_block buf i st = Inr st'"
    by (simp add: write_code_block_def)
  from write_plain_block_Inr [OF this] obtain cb' where
    cb': "es_code_blocks st' = (es_code_blocks st)[i := cb']"
      "cb_final_size cb' = cb_file_size (es_code_blocks st ! i)"
    by blast
  from block_ok_bound [OF assms(2)] False cb'(2)
  have "cb_final_size cb' \<le> cb_expected_size (es_code_blocks st ! i)" by simp
  with cb'(1) show ?thesis by blast
qed

lemma write_code_blocks_loop_bound:
  assumes "write_code_blocks_loop z buf u dbs idxs st = Inr st'"
    and "distinct idxs" and "\<forall>i \<in> set idxs. i < length (es_code_blocks st)"
    and "\<forall>i \<in> set idxs. block_ok z buf (es_code_blocks st ! i)"
  shows "length (es_code_blocks st') = length (es_code_blocks st)
       \<and> (\<forall>j. j \<notin> set idxs \<longrightarrow> es_code_blocks st' ! j = es_code_blocks st ! j)
       \<and> (\<forall>i \<in> set idxs. cb_final_size (es_code_blocks st' ! i)
                            \<le> cb_expected_size (es_code_blocks st ! i))"
  using assms
proof (induction idxs arbitrary: st)
  case Nil
  then show ?case by simp
next
  case (Cons i idxs)
  from Cons.prems(1) obtain st1 where
    step: "write_code_block z buf u dbs i st = Inr st1"
    and rest: "write_code_blocks_loop z buf u dbs idxs st1 = Inr st'"
    by (auto split: sum.splits)
  from Cons.prems have i: "i < length (es_code_blocks st)" and ni: "i \<notin> set idxs"
    and ok: "block_ok z buf (es_code_blocks st ! i)" by simp_all
  from write_code_block_bound [OF step ok] obtain cb' where
    cbs1: "es_code_blocks st1 = (es_code_blocks st)[i := cb']"
    and le: "cb_final_size cb' \<le> cb_expected_size (es_code_blocks st ! i)" by blast
  have same: "\<forall>j. j \<noteq> i \<longrightarrow> es_code_blocks st1 ! j = es_code_blocks st ! j"
    using cbs1 by simp
  have len1: "length (es_code_blocks st1) = length (es_code_blocks st)"
    using cbs1 by simp
  have p2: "distinct idxs" using Cons.prems(2) by simp
  have p3: "\<forall>k \<in> set idxs. k < length (es_code_blocks st1)"
    using Cons.prems(3) len1 by simp
  have p4: "\<forall>k \<in> set idxs. block_ok z buf (es_code_blocks st1 ! k)"
  proof
    fix k assume k: "k \<in> set idxs"
    with ni have "k \<noteq> i" by auto
    with same have "es_code_blocks st1 ! k = es_code_blocks st ! k" by simp
    with Cons.prems(4) k show "block_ok z buf (es_code_blocks st1 ! k)" by simp
  qed
  from Cons.IH [OF rest p2 p3 p4] have
    len': "length (es_code_blocks st') = length (es_code_blocks st1)"
    and keep: "\<forall>j. j \<notin> set idxs \<longrightarrow> es_code_blocks st' ! j = es_code_blocks st1 ! j"
    and bound: "\<forall>k \<in> set idxs. cb_final_size (es_code_blocks st' ! k)
                            \<le> cb_expected_size (es_code_blocks st1 ! k)"
    by simp_all
  from keep ni have "es_code_blocks st' ! i = es_code_blocks st1 ! i" by simp
  with cbs1 i have at_i: "es_code_blocks st' ! i = cb'" by simp
  have b1: "cb_final_size (es_code_blocks st' ! i) \<le> cb_expected_size (es_code_blocks st ! i)"
    using at_i le by simp
  have b2: "\<forall>k \<in> set idxs. cb_final_size (es_code_blocks st' ! k)
                            \<le> cb_expected_size (es_code_blocks st ! k)"
  proof
    fix k assume k: "k \<in> set idxs"
    with ni have "k \<noteq> i" by auto
    with same have "es_code_blocks st1 ! k = es_code_blocks st ! k" by simp
    moreover from bound k have "cb_final_size (es_code_blocks st' ! k)
                         \<le> cb_expected_size (es_code_blocks st1 ! k)" by blast
    ultimately show "cb_final_size (es_code_blocks st' ! k)
                         \<le> cb_expected_size (es_code_blocks st ! k)" by simp
  qed
  have k2: "\<forall>j. j \<notin> set (i # idxs) \<longrightarrow> es_code_blocks st' ! j = es_code_blocks st ! j"
    using keep same by auto
  from len' len1 k2 b1 b2 show ?case by simp
qed

text \<open>
  C8. For every code block that \<open>parse2\<close> built, the size that \<open>write_code_blocks\<close>
  records when it has written the block is at most the expected size that the
  block carried before the emission.
\<close>

theorem final_size_le_expected_size:
  assumes "length file_buffer < 2 ^ 32"
    and "code_blocks = snd (parse2 z sections file_buffer begin_addresses)"
    and "write_code_blocks z file_buffer uninitialized data_blocks code_blocks code_regions mem
           = Inr (code_blocks', mem', pending)"
    and "i < length code_blocks"
  shows "length code_blocks' = length code_blocks
       \<and> cb_final_size (code_blocks' ! i) \<le> cb_expected_size (code_blocks ! i)"
proof -
  from assms(4) have ne: "code_blocks \<noteq> []" by auto
  let ?st = "\<lparr>es_code_blocks = code_blocks, es_writer = new_writer code_regions,
               es_memory = mem, es_forward_targets = []\<rparr>"
  from assms(3) ne obtain st' where
    loop: "write_code_blocks_loop z file_buffer uninitialized data_blocks
             [0..<length code_blocks] ?st = Inr st'"
    and res: "code_blocks' = es_code_blocks st'"
    by (auto simp: write_code_blocks_def split: if_splits sum.splits)
  have ok: "\<forall>k \<in> set [0..<length code_blocks]. block_ok z file_buffer (es_code_blocks ?st ! k)"
    using parse2_blocks_ok [OF assms(1), of z sections begin_addresses] assms(2)
    by (simp add: list_all_length)
  from write_code_blocks_loop_bound [OF loop _ _ ok] assms(4) res
  show ?thesis by simp
qed

theorem final_size_le_expected_size_witness:
  "length jz_example < 2 ^ 32
   \<and> jz_blocks = snd (parse2 tiny_x86 [text_section] jz_example [0x1000])
   \<and> map cb_final_size
       (fst (projr (write_code_blocks tiny_x86 jz_example (\<lambda>i. 0xCC) [] jz_blocks
                code_region_example (\<lambda>a. 0)))) = [2, 2]
   \<and> map cb_expected_size jz_blocks = [34, 2]
   \<and> cb_final_size (fst (projr (write_code_blocks tiny_x86 jz_example (\<lambda>i. 0xCC) [] jz_blocks
                code_region_example (\<lambda>a. 0))) ! 0) \<le> cb_expected_size (jz_blocks ! 0)"
proof -
  have len: "length jz_example < 2 ^ 32" by (simp add: jz_example_def)
  have run: "jz_blocks = snd (parse2 tiny_x86 [text_section] jz_example [0x1000])"
    by code_simp
  obtain cbs' mem' pending where
    w: "write_code_blocks tiny_x86 jz_example (\<lambda>i. 0xCC) [] jz_blocks
          code_region_example (\<lambda>a. 0) = Inr (cbs', mem', pending)"
    and fin: "map cb_final_size cbs' = [2, 2]"
  proof -
    have "case write_code_blocks tiny_x86 jz_example (\<lambda>i. 0xCC) [] jz_blocks
                code_region_example (\<lambda>a. 0) of
            Inl e \<Rightarrow> False | Inr (cbs, mem, pending) \<Rightarrow> map cb_final_size cbs = [2, 2]"
      by code_simp
    with that show ?thesis by (auto split: sum.splits)
  qed
  have i: "0 < length jz_blocks" by (simp add: jz_blocks_def)
  from final_size_le_expected_size [OF len run w i]
  have "cb_final_size (cbs' ! 0) \<le> cb_expected_size (jz_blocks ! 0)" by simp
  moreover have "map cb_expected_size jz_blocks = [34, 2]" by (simp add: jz_blocks_def)
  ultimately show ?thesis using len run w fin by simp
qed

end
